theory Spec2Isabelle
  imports Main
begin

section \<open>Cards and the deck (App.jsx, lines 3-42)\<close>

text \<open>
  The source keeps suits and ranks as string constants; they are closed enumerations
  and are modelled as datatypes. \<open>R2\<close> .. \<open>R10\<close> stand for the rank strings
  \<open>'2'\<close> .. \<open>'10'\<close>, and \<open>RJ\<close>, \<open>RQ\<close>, \<open>RK\<close>, \<open>RA\<close> for \<open>'J'\<close>, \<open>'Q'\<close>, \<open>'K'\<close>, \<open>'A'\<close>.
\<close>

datatype suit = Hearts | Diamonds | Clubs | Spades

datatype rank = R2 | R3 | R4 | R5 | R6 | R7 | R8 | R9 | R10 | RJ | RQ | RK | RA

definition suits :: "suit list" where
  "suits = [Hearts, Diamonds, Clubs, Spades]"

definition ranks :: "rank list" where
  "ranks = [R2, R3, R4, R5, R6, R7, R8, R9, R10, RJ, RQ, RK, RA]"

text \<open>
  \<open>parseInt\<close> on a rank string. The source applies it to the numeric ranks only (both call
  sites test for \<open>'J'\<close>, \<open>'Q'\<close>, \<open>'K'\<close> and \<open>'A'\<close> first); on the other four it would be
  \<open>NaN\<close>, and the model leaves it unspecified there.
\<close>

fun parseInt :: "rank \<Rightarrow> int" where
  "parseInt R2 = 2"
| "parseInt R3 = 3"
| "parseInt R4 = 4"
| "parseInt R5 = 5"
| "parseInt R6 = 6"
| "parseInt R7 = 7"
| "parseInt R8 = 8"
| "parseInt R9 = 9"
| "parseInt R10 = 10"

text \<open>A card object \<open>{ suit, rank, value }\<close>; the field \<open>value\<close> is named \<open>value_c\<close> here.\<close>

record card =
  suit :: suit
  rank :: rank
  value_c :: int

text \<open>The body of the inner loop of \<open>createDeck\<close>: the card pushed for one suit and rank.\<close>

definition makeCard :: "suit \<Rightarrow> rank \<Rightarrow> card" where
  "makeCard s r =
     \<lparr>suit = s, rank = r,
      value_c = (if r \<in> set [RJ, RQ, RK] then 10 else if r = RA then 11 else parseInt r)\<rparr>"

definition createDeck :: "card list" where
  "createDeck = concat (map (\<lambda>s. map (\<lambda>r. makeCard s r) ranks) suits)"

text \<open>
  \<open>shuffleDeck\<close>: Fisher-Yates, \<open>i\<close> from \<open>deck.length - 1\<close> down to \<open>1\<close>. The argument
  \<open>rnd\<close> supplies the random draws: at loop index \<open>i\<close> the source computes
  \<open>j = Math.floor(Math.random() * (i + 1))\<close>, an integer in \<open>0..i\<close>, which the model
  obtains as \<open>rnd i mod (i + 1)\<close>.
\<close>

fun shuffleLoop :: "nat \<Rightarrow> (nat \<Rightarrow> nat) \<Rightarrow> card list \<Rightarrow> card list" where
  "shuffleLoop 0 rnd deck = deck"
| "shuffleLoop (Suc n) rnd deck =
     (let i = Suc n; j = rnd i mod (i + 1)
      in shuffleLoop n rnd (deck[i := deck ! j, j := deck ! i]))"

definition shuffleDeck :: "(nat \<Rightarrow> nat) \<Rightarrow> card list \<Rightarrow> card list" where
  "shuffleDeck rnd deck = shuffleLoop (length deck - 1) rnd deck"

text \<open>
  \<open>Array.prototype.pop\<close>: the last element and the array without it. Every call in the
  source is on a non-empty array (after a length test, or on a freshly shuffled deck).
\<close>

definition pop :: "'a list \<Rightarrow> 'a \<times> 'a list" where
  "pop xs = (last xs, butlast xs)"

section \<open>Hand evaluation (App.jsx, lines 50-76)\<close>

record handValue =
  total_hv :: int
  isSoft :: bool

text \<open>First pass: the \<open>for\<close> loop over the hand, with the locals \<open>total\<close> (here \<open>tot\<close>) and \<open>numAces\<close>.\<close>

fun firstPass :: "card list \<Rightarrow> int \<Rightarrow> nat \<Rightarrow> int \<times> nat" where
  "firstPass [] tot numAces = (tot, numAces)"
| "firstPass (c # hand) tot numAces =
     (if rank c = RA then firstPass hand (tot + 11) (numAces + 1)
      else firstPass hand (tot + value_c c) numAces)"

text \<open>Second pass: the \<open>while\<close> loop that turns aces from 11 into 1.\<close>

function secondPass :: "int \<Rightarrow> nat \<Rightarrow> int \<times> nat" where
  "secondPass tot numAces =
     (if tot > 21 \<and> numAces > 0 then secondPass (tot - 10) (numAces - 1)
      else (tot, numAces))"
  by pat_completeness auto
termination
  by (relation "measure (\<lambda>(tot, numAces). numAces)") auto

declare secondPass.simps [simp del]

definition calculateHandValue :: "card list \<Rightarrow> handValue" where
  "calculateHandValue hand =
     (case firstPass hand 0 0 of (tot, numAces) \<Rightarrow>
        (case secondPass tot numAces of (tot', numAces') \<Rightarrow>
           \<lparr>total_hv = tot', isSoft = (numAces' > 0)\<rparr>))"

section \<open>The auto-play strategy (App.jsx, lines 101-141)\<close>

text \<open>Line 104: the value of the dealer's up-card used by the strategy.\<close>

definition dealerUpCardValue :: "card \<Rightarrow> int" where
  "dealerUpCardValue dealerUpCard =
     (if rank dealerUpCard = RA then 11
      else if rank dealerUpCard \<in> set [RJ, RQ, RK] then 10
      else parseInt (rank dealerUpCard))"

definition shouldAutoPlayHit :: "card list \<Rightarrow> card \<Rightarrow> nat \<Rightarrow> bool" where
  "shouldAutoPlayHit pHand dealerUpCard playerCardCount =
     (let playerTotal = total_hv (calculateHandValue pHand);
          playerIsSoft = isSoft (calculateHandValue pHand);
          upValue = dealerUpCardValue dealerUpCard
      in if playerCardCount = 5 \<and> playerTotal \<le> 21 \<and> 21 - playerTotal \<ge> 10 then True
         else if playerTotal \<ge> 21 then False
         else if playerIsSoft then
           (if playerTotal \<le> 17 then True
            else if playerTotal = 18 then upValue \<notin> set [2, 3, 4, 5, 6, 7, 8]
            else False)
         else
           (if playerTotal \<le> 11 then True
            else if playerTotal = 12 then upValue \<notin> set [4, 5, 6]
            else if playerTotal \<ge> 13 \<and> playerTotal \<le> 16 then upValue \<notin> set [2, 3, 4, 5, 6]
            else False))"

text \<open>
  The same function with the 5-card test of lines 106-109 deleted and nothing else
  changed; it is the object of comparison for the question whether that test matters.
\<close>

definition shouldAutoPlayHit_without5 :: "card list \<Rightarrow> card \<Rightarrow> nat \<Rightarrow> bool" where
  "shouldAutoPlayHit_without5 pHand dealerUpCard playerCardCount =
     (let playerTotal = total_hv (calculateHandValue pHand);
          playerIsSoft = isSoft (calculateHandValue pHand);
          upValue = dealerUpCardValue dealerUpCard
      in if playerTotal \<ge> 21 then False
         else if playerIsSoft then
           (if playerTotal \<le> 17 then True
            else if playerTotal = 18 then upValue \<notin> set [2, 3, 4, 5, 6, 7, 8]
            else False)
         else
           (if playerTotal \<le> 11 then True
            else if playerTotal = 12 then upValue \<notin> set [4, 5, 6]
            else if playerTotal \<ge> 13 \<and> playerTotal \<le> 16 then upValue \<notin> set [2, 3, 4, 5, 6]
            else False))"

section \<open>The game state (App.jsx, lines 148-162)\<close>

text \<open>
  \<open>gamePhase\<close> is a string state with the values \<open>'betting'\<close>, \<open>'playerTurn'\<close>,
  \<open>'dealerTurn'\<close> and \<open>'result'\<close>. \<open>AutoPlay\<close> is the literal \<open>'autoPlay'\<close> that
  \<open>hitPlayer\<close> and \<open>standPlayer\<close> compare against; no setter ever stores it.
  \<open>lastHandResult\<close> is the empty string (\<open>NoResult\<close>), \<open>'Win'\<close>, \<open>'Loss'\<close> or
  \<open>'Push'\<close>.
\<close>

datatype phase = Betting | PlayerTurn | DealerTurn | Result | AutoPlay

datatype handResult = NoResult | Win | Loss | Push

fun showResult :: "handResult \<Rightarrow> string" where
  "showResult NoResult = []"
| "showResult Win = ''Win''"
| "showResult Loss = ''Loss''"
| "showResult Push = ''Push''"

text \<open>
  One field per \<open>useState\<close> cell. \<open>autoplayTimeoutRef\<close> is left out: the two
  \<open>setTimeout\<close> calls that would store into it are commented out in the source, so it
  stays \<open>null\<close> and every \<open>clearTimeout\<close> on it does nothing.

  The setters of one handler are queued and applied in order; the model applies them in
  that order to the state. A handler reads the state of the render it was created in,
  which is the state the model passes to it.
\<close>

record game =
  bankroll :: int
  throughput :: int
  points :: int
  deck :: "card list"
  playerHand :: "card list"
  dealerHand :: "card list"
  betAmount :: int
  gamePhase :: phase
  message :: string
  autoPlayMode :: bool
  lastPlayerTotal :: int
  lastDealerTotal :: int
  lastHandResult :: handResult

definition initialState :: game where
  "initialState =
     \<lparr>bankroll = 1000, throughput = 0, points = 0, deck = [], playerHand = [],
      dealerHand = [], betAmount = 10, gamePhase = Betting,
      message = ''Place your bet and click Deal!'', autoPlayMode = False,
      lastPlayerTotal = 0, lastDealerTotal = 0, lastHandResult = NoResult\<rparr>"

section \<open>The handlers (App.jsx, lines 169-442)\<close>

definition resetGame :: "game \<Rightarrow> game" where
  "resetGame s =
     s\<lparr>bankroll := 1000, throughput := 0, points := 0, deck := [], playerHand := [],
       dealerHand := [], gamePhase := Betting,
       message := ''Game reset! Place your bet and click Deal!'',
       lastPlayerTotal := 0, lastDealerTotal := 0, lastHandResult := NoResult,
       autoPlayMode := False\<rparr>"

text \<open>
  Lines 216-245 of \<open>dealHand\<close>: the check for immediate blackjacks, applied to the
  state \<open>s\<close> as lines 205-214 have left it. The second test (line 239) is a separate
  \<open>if\<close>, not an \<open>else\<close> branch of the first.
\<close>

definition dealHand_blackjacks :: "card list \<Rightarrow> card list \<Rightarrow> int \<Rightarrow> game \<Rightarrow> game" where
  "dealHand_blackjacks newPlayerHand newDealerHand bet s =
     (let playerVal = total_hv (calculateHandValue newPlayerHand);
          dealerVal = total_hv (calculateHandValue newDealerHand);
          s1 = (if playerVal = 21 \<and> length newPlayerHand = 2 then
                  (if dealerVal = 21 \<and> length newDealerHand = 2 then
                     s\<lparr>message := ''Both have Blackjack! Push.'',
                       bankroll := bankroll s + bet,
                       gamePhase := Result, lastHandResult := Push,
                       lastPlayerTotal := playerVal, lastDealerTotal := dealerVal\<rparr>
                   else
                     s\<lparr>message := ''Blackjack! You win!'',
                       bankroll := bankroll s + bet * 2,
                       gamePhase := Result, lastHandResult := Win,
                       lastPlayerTotal := playerVal, lastDealerTotal := dealerVal\<rparr>)
                else s)
      in if dealerVal = 21 \<and> length newDealerHand = 2 then
           s1\<lparr>message := ''Dealer has Blackjack! You lose.'',
              gamePhase := Result, lastHandResult := Loss,
              lastPlayerTotal := playerVal, lastDealerTotal := dealerVal\<rparr>
         else s1)"

definition dealHand :: "(nat \<Rightarrow> nat) \<Rightarrow> game \<Rightarrow> game" where
  "dealHand rnd s =
     (if gamePhase s \<noteq> Betting \<and> gamePhase s \<noteq> Result then s
      else if bankroll s < betAmount s then
        (if autoPlayMode s
         then s\<lparr>message := ''Not enough money to place this bet!'', autoPlayMode := False\<rparr>
         else s\<lparr>message := ''Not enough money to place this bet!''\<rparr>)
      else
        (case pop (shuffleDeck rnd createDeck) of (c1, d1) \<Rightarrow>
         case pop d1 of (c2, d2) \<Rightarrow>
         case pop d2 of (c3, d3) \<Rightarrow>
         case pop d3 of (c4, newDeck) \<Rightarrow>
           dealHand_blackjacks [c1, c2] [c3, c4] (betAmount s)
             (s\<lparr>bankroll := bankroll s - betAmount s,
                throughput := throughput s + betAmount s,
                deck := newDeck, playerHand := [c1, c2], dealerHand := [c3, c4],
                gamePhase := PlayerTurn, message := ''Your turn: Hit or Stand?'',
                lastPlayerTotal := 0, lastDealerTotal := 0, lastHandResult := NoResult\<rparr>)))"

definition hitPlayer :: "game \<Rightarrow> game" where
  "hitPlayer s =
     (if gamePhase s \<noteq> PlayerTurn \<and> gamePhase s \<noteq> AutoPlay then s
      else if length (deck s) = 0 then
        (if autoPlayMode s
         then s\<lparr>message := ''Deck is empty! Please Reset the game.'', autoPlayMode := False\<rparr>
         else s\<lparr>message := ''Deck is empty! Please Reset the game.''\<rparr>)
      else
        (case pop (deck s) of (c, newDeck) \<Rightarrow>
           (let newPlayerHand = playerHand s @ [c];
                s1 = s\<lparr>playerHand := newPlayerHand, deck := newDeck\<rparr>;
                playerTotal = total_hv (calculateHandValue newPlayerHand)
            in if length newPlayerHand = 6 \<and> playerTotal \<le> 21 then
                 s1\<lparr>message := ''6 Card Charlie! You win automatically!'',
                    bankroll := bankroll s1 + betAmount s * 2,
                    gamePhase := Result, lastHandResult := Win,
                    lastPlayerTotal := playerTotal,
                    lastDealerTotal := total_hv (calculateHandValue (dealerHand s))\<rparr>
               else if playerTotal > 21 then
                 s1\<lparr>message := ''You busted! Dealer wins.'',
                    gamePhase := Result, lastHandResult := Loss,
                    lastPlayerTotal := playerTotal,
                    lastDealerTotal := total_hv (calculateHandValue (dealerHand s))\<rparr>
               else if autoPlayMode s then s1
               else s1\<lparr>message := ''Your turn: Hit or Stand?''\<rparr>)))"

definition standPlayer :: "game \<Rightarrow> game" where
  "standPlayer s =
     (if gamePhase s \<noteq> PlayerTurn \<and> gamePhase s \<noteq> AutoPlay then s
      else s\<lparr>gamePhase := DealerTurn, message := ''Dealer is playing...''\<rparr>)"

text \<open>
  \<open>determineWinner\<close> (lines 351-402). The function is a closure of the render that
  created it: \<open>bankroll0\<close> is the \<open>bankroll\<close> of that render, which lines 357-399 read
  and from which line 400 writes an absolute value; \<open>s\<close> is the state at the time of
  the call, to which the setters are applied.
\<close>

definition determineWinner :: "int \<Rightarrow> card list \<Rightarrow> card list \<Rightarrow> int \<Rightarrow> game \<Rightarrow> game" where
  "determineWinner bankroll0 pHand dHand bet s =
     (let playerVal = total_hv (calculateHandValue pHand);
          dealerVal = total_hv (calculateHandValue dHand);
          (resultMessage, handResult, newBankroll) =
            (if playerVal > 21 then
               (''You busted! Dealer wins.'', Loss, bankroll0)
             else if dealerVal > 21 then
               (''Dealer busted! You win!'', Win, bankroll0 + bet * 2)
             else if length pHand = 6 \<and> playerVal \<le> 21 then
               (''6 Card Charlie! You win automatically!'', Win, bankroll0 + bet * 2)
             else if length dHand = 6 \<and> dealerVal < 17 then
               (''Dealer 6 Card Charlie! Dealer loses!'', Win, bankroll0 + bet * 2)
             else if playerVal > dealerVal then
               (''You win!'', Win, bankroll0 + bet * 2)
             else if dealerVal > playerVal then
               (''Dealer wins.'', Loss, bankroll0)
             else
               (''It's a push!'', Push, bankroll0 + bet));
          s1 = s\<lparr>message := resultMessage, lastHandResult := handResult,
                 gamePhase := Result\<rparr>
      in if newBankroll \<noteq> bankroll0 then s1\<lparr>bankroll := newBankroll\<rparr> else s1)"

text \<open>
  \<open>dealerPlay\<close> (lines 308-342) is asynchronous: it waits (line 321) before every draw,
  and other handlers, effects and other calls of \<open>dealerPlay\<close> run during the wait. A
  call that is waiting is a \<open>dealerRun\<close>: what it has captured from the render that
  started it (\<open>bankroll\<close>, \<open>betAmount\<close>, \<open>playerHand\<close>, here with the suffix \<open>_c\<close>)
  and its locals \<open>currentDealerHand\<close>, \<open>currentDeck\<close> and \<open>dealerTotal\<close>. Between two
  waits the call runs without interruption, and its setters are applied, in order, to
  the state of that moment.
\<close>

record dealerRun =
  bankroll_c :: int
  betAmount_c :: int
  playerHand_c :: "card list"
  currentDealerHand :: "card list"
  currentDeck :: "card list"
  dealerTotal :: int

text \<open>
  Lines 329-340, after the loop: the direct resolution of a dealer with 6 cards below
  17, which credits through the updater \<open>prev => prev + betAmount * 2\<close>, relative to the
  bankroll of the moment; otherwise \<open>determineWinner\<close>, with the captured bankroll, bet
  and player hand; then the two totals.
\<close>

definition dealerPlay_finish :: "dealerRun \<Rightarrow> game \<Rightarrow> game" where
  "dealerPlay_finish r s =
     (let s2 = (if length (currentDealerHand r) = 6 \<and> dealerTotal r < 17 then
                  s\<lparr>message := ''Dealer 6 Card Charlie! Dealer loses!'',
                    bankroll := bankroll s + betAmount_c r * 2,
                    gamePhase := Result, lastHandResult := Win\<rparr>
                else determineWinner (bankroll_c r) (playerHand_c r) (currentDealerHand r)
                       (betAmount_c r) s)
      in s2\<lparr>lastDealerTotal := dealerTotal r,
            lastPlayerTotal := total_hv (calculateHandValue (playerHand_c r))\<rparr>)"

text \<open>
  The head of the \<open>while\<close> loop (lines 314-321): the loop condition, the test for an
  empty deck, and the wait. The result is the state and, when the call now waits to
  draw, the waiting call; \<open>None\<close> when it has run to its end.
\<close>

definition dealerPlay_loopHead :: "dealerRun \<Rightarrow> game \<Rightarrow> game \<times> dealerRun option" where
  "dealerPlay_loopHead r s =
     (if dealerTotal r < 17 \<and> length (currentDealerHand r) < 6 then
        (if length (currentDeck r) = 0 then
           (dealerPlay_finish r (s\<lparr>message := ''Deck is empty! Dealer cannot draw more.''\<rparr>),
            None)
         else (s, Some r))
      else (dealerPlay_finish r s, None))"

text \<open>The start of a call (lines 309-311) from the state \<open>s\<close> of the render.\<close>

definition dealerPlay_start :: "game \<Rightarrow> game \<times> dealerRun option" where
  "dealerPlay_start s =
     dealerPlay_loopHead
       \<lparr>bankroll_c = bankroll s, betAmount_c = betAmount s, playerHand_c = playerHand s,
        currentDealerHand = dealerHand s, currentDeck = deck s,
        dealerTotal = total_hv (calculateHandValue (dealerHand s))\<rparr> s"

text \<open>
  A waiting call goes on (lines 322-326): it draws from its own deck, which the loop
  head has found non-empty, writes its hand and its deck into the state, and is at the
  loop head again.
\<close>

definition dealerPlay_resume :: "dealerRun \<Rightarrow> game \<Rightarrow> game \<times> dealerRun option" where
  "dealerPlay_resume r s =
     (case pop (currentDeck r) of (newCard, deck') \<Rightarrow>
        dealerPlay_loopHead
          (r\<lparr>currentDealerHand := currentDealerHand r @ [newCard], currentDeck := deck',
             dealerTotal := total_hv (calculateHandValue (currentDealerHand r @ [newCard]))\<rparr>)
          (s\<lparr>dealerHand := currentDealerHand r @ [newCard], deck := deck'\<rparr>))"

text \<open>
  \<open>autoPlayPlayerTurnAction\<close> (lines 408-442). \<open>dealerHand[0]\<close> of an empty dealer hand
  is \<open>undefined\<close>, and \<open>shouldAutoPlayHit\<close> then raises a TypeError on reading its rank.
\<close>

datatype error = TypeError

definition autoPlayPlayerTurnAction :: "game \<Rightarrow> error + game" where
  "autoPlayPlayerTurnAction s =
     (if autoPlayMode s \<and> gamePhase s = PlayerTurn then
        (let playerTotal = total_hv (calculateHandValue (playerHand s));
             playerCardCount = length (playerHand s)
         in if playerTotal > 21 then Inr (s\<lparr>message := ''Auto-play: Player busted!''\<rparr>)
            else if playerCardCount = 6 \<and> playerTotal \<le> 21 then
              Inr (s\<lparr>message := ''Auto-play: 6 Card Charlie! Player wins automatically!''\<rparr>)
            else
              (case dealerHand s of
                 [] \<Rightarrow> Inl TypeError
               | dealerUpCard # _ \<Rightarrow>
                   (if shouldAutoPlayHit (playerHand s) dealerUpCard playerCardCount
                    then Inr (hitPlayer (s\<lparr>message := ''Auto-play: Hitting...''\<rparr>))
                    else Inr (standPlayer (s\<lparr>message := ''Auto-play: Standing...''\<rparr>)))))
      else Inr s)"

section \<open>Effects and controls (App.jsx, lines 448-508 and 581-652)\<close>

text \<open>
  The dealer's effect (lines 453-457): in the phase \<open>'dealerTurn'\<close> it starts a call of
  \<open>dealerPlay\<close>.
\<close>

definition dealerTurnEffect :: "game \<Rightarrow> game \<times> dealerRun option" where
  "dealerTurnEffect s = (if gamePhase s = DealerTurn then dealerPlay_start s else (s, None))"

definition pointsEffect :: "game \<Rightarrow> game" where
  "pointsEffect s = s\<lparr>points := throughput s div 10\<rparr>"

definition autoPlayEffect :: "(nat \<Rightarrow> nat) \<Rightarrow> game \<Rightarrow> error + game" where
  "autoPlayEffect rnd s =
     (if autoPlayMode s then
        (if gamePhase s = Betting then
           Inr (dealHand rnd (s\<lparr>message := ''Auto-play: Dealing new hand...''\<rparr>))
         else if gamePhase s = PlayerTurn then
           autoPlayPlayerTurnAction (s\<lparr>message := ''Auto-play: Player's turn...''\<rparr>)
         else if gamePhase s = DealerTurn then
           Inr (s\<lparr>message := ''Auto-play: Dealer is playing...''\<rparr>)
         else if gamePhase s = Result then
           Inr (s\<lparr>message := ''Auto-play: Hand ended. '' @ showResult (lastHandResult s)
                              @ ''. Starting next hand...'',
                   gamePhase := Betting\<rparr>)
         else Inr s)
      else Inr s)"

definition resultEffect :: "game \<Rightarrow> game" where
  "resultEffect s =
     (if autoPlayMode s then s
      else if gamePhase s = Result then s\<lparr>gamePhase := Betting\<rparr>
      else s)"

definition toggleAutoPlay :: "game \<Rightarrow> game" where
  "toggleAutoPlay s =
     (if autoPlayMode s then s\<lparr>message := ''Auto-play stopped.'', autoPlayMode := False\<rparr>
      else s\<lparr>message := ''Auto-play started...'', autoPlayMode := True\<rparr>)"

text \<open>
  The bet selector (lines 581-588): its options are a fixed list, and it is disabled
  unless the phase is \<open>'betting'\<close>.
\<close>

definition betOptions :: "int list" where
  "betOptions = [1, 2, 3, 4, 5, 10, 15, 20, 25, 30, 35, 40, 45, 50]"

definition selectBet :: "int \<Rightarrow> game \<Rightarrow> game" where
  "selectBet amount s =
     (if gamePhase s = Betting \<and> amount \<in> set betOptions then s\<lparr>betAmount := amount\<rparr>
      else s)"

text \<open>
  The totals shown in the two hand headings (lines 596 and 602): the player's total is
  always computed; the dealer's is computed in the phases \<open>'result'\<close>, \<open>'dealerTurn'\<close>
  and \<open>'betting'\<close>, and shown as \<open>?\<close> (\<open>None\<close>) otherwise.
\<close>

definition playerHeading :: "game \<Rightarrow> int" where
  "playerHeading s = total_hv (calculateHandValue (playerHand s))"

definition dealerHeading :: "game \<Rightarrow> int option" where
  "dealerHeading s =
     (if gamePhase s = Result \<or> gamePhase s = DealerTurn \<or> gamePhase s = Betting
      then Some (total_hv (calculateHandValue (dealerHand s)))
      else None)"

section \<open>The state machine\<close>

text \<open>
  The page is the state cells together with the calls of \<open>dealerPlay\<close> that are waiting.
  What can happen to it: a click on one of the buttons (the Deal and Reset buttons are
  disabled while auto-play is on, lines 611 and 649), a choice in the bet selector, a
  run of one of the effects, or a waiting call of \<open>dealerPlay\<close> going on after its
  delay. A Deal, by button or by auto-play, carries the random draws of its shuffle.
  An effect that raises leaves the page as it was.

  Each of these runs without interruption on the state of its moment. React runs an
  effect after a render in which one of its dependencies has changed; here an effect
  may run at any moment, which covers every order the page can produce. In particular
  the dealer's effect (lines 453-457) depends on \<open>dealerHand\<close>, which every draw
  replaces, so while the phase is still \<open>'dealerTurn'\<close> it runs again after a draw and
  starts one more call of \<open>dealerPlay\<close>; and a call that is waiting is not cancelled by
  a reset or a new deal.
\<close>

record page =
  ui :: game
  dealerRuns :: "dealerRun list"

datatype event =
    DealClick "nat \<Rightarrow> nat"
  | HitClick
  | StandClick
  | AutoPlayClick
  | ResetClick
  | BetSelect int
  | RunDealerTurnEffect
  | ResumeDealerPlay nat
  | RunPointsEffect
  | RunAutoPlayEffect "nat \<Rightarrow> nat"
  | RunResultEffect

fun step :: "event \<Rightarrow> page \<Rightarrow> page" where
  "step (DealClick rnd) p =
     p\<lparr>ui := (if autoPlayMode (ui p) then ui p else dealHand rnd (ui p))\<rparr>"
| "step HitClick p = p\<lparr>ui := hitPlayer (ui p)\<rparr>"
| "step StandClick p = p\<lparr>ui := standPlayer (ui p)\<rparr>"
| "step AutoPlayClick p = p\<lparr>ui := toggleAutoPlay (ui p)\<rparr>"
| "step ResetClick p = p\<lparr>ui := (if autoPlayMode (ui p) then ui p else resetGame (ui p))\<rparr>"
| "step (BetSelect amount) p = p\<lparr>ui := selectBet amount (ui p)\<rparr>"
| "step RunDealerTurnEffect p =
     (case dealerTurnEffect (ui p) of
        (s', None) \<Rightarrow> p\<lparr>ui := s'\<rparr>
      | (s', Some r) \<Rightarrow> p\<lparr>ui := s', dealerRuns := dealerRuns p @ [r]\<rparr>)"
| "step (ResumeDealerPlay i) p =
     (if i < length (dealerRuns p) then
        (case dealerPlay_resume (dealerRuns p ! i) (ui p) of
           (s', None) \<Rightarrow>
             p\<lparr>ui := s', dealerRuns := take i (dealerRuns p) @ drop (Suc i) (dealerRuns p)\<rparr>
         | (s', Some r) \<Rightarrow> p\<lparr>ui := s', dealerRuns := (dealerRuns p)[i := r]\<rparr>)
      else p)"
| "step RunPointsEffect p = p\<lparr>ui := pointsEffect (ui p)\<rparr>"
| "step (RunAutoPlayEffect rnd) p =
     (case autoPlayEffect rnd (ui p) of Inl e \<Rightarrow> p | Inr s' \<Rightarrow> p\<lparr>ui := s'\<rparr>)"
| "step RunResultEffect p = p\<lparr>ui := resultEffect (ui p)\<rparr>"

text \<open>
  The page after a sequence of events, from the page the mount effect (line 449,
  \<open>resetGame\<close>) leaves, with no call of \<open>dealerPlay\<close> waiting.
\<close>

fun run :: "event list \<Rightarrow> page \<Rightarrow> page" where
  "run [] p = p"
| "run (e # es) p = run es (step e p)"

definition startState :: game where
  "startState = resetGame initialState"

definition startPage :: page where
  "startPage = \<lparr>ui = startState, dealerRuns = []\<rparr>"

section \<open>Notions used to state the properties\<close>

text \<open>
  The value of a rank by the rules of the game: the number for a numeric rank, 10 for a
  face card, 11 for an ace.
\<close>

fun baseValue :: "rank \<Rightarrow> int" where
  "baseValue R2 = 2"
| "baseValue R3 = 3"
| "baseValue R4 = 4"
| "baseValue R5 = 5"
| "baseValue R6 = 6"
| "baseValue R7 = 7"
| "baseValue R8 = 8"
| "baseValue R9 = 9"
| "baseValue R10 = 10"
| "baseValue RJ = 10"
| "baseValue RQ = 10"
| "baseValue RK = 10"
| "baseValue RA = 11"

text \<open>The sum of a hand with every ace as 11, and the number of its aces.\<close>

definition rawTotal :: "card list \<Rightarrow> int" where
  "rawTotal hand = sum_list (map (\<lambda>c. baseValue (rank c)) hand)"

definition aceCount :: "card list \<Rightarrow> nat" where
  "aceCount hand = length (filter (\<lambda>c. rank c = RA) hand)"

text \<open>
  A waiting call of \<open>dealerPlay\<close> is at the wait of line 321: its total is that of its
  hand and below 17, it holds at most 5 cards, and its deck is large: the deck and four
  times the hand count at least 53 (a draw takes one card from the deck and gives one
  to the hand, so the count only grows).
\<close>

definition waitingRun :: "dealerRun \<Rightarrow> bool" where
  "waitingRun r =
     (dealerTotal r = total_hv (calculateHandValue (currentDealerHand r))
      \<and> dealerTotal r < 17
      \<and> length (currentDealerHand r) \<le> 5
      \<and> 53 \<le> length (currentDeck r) + 4 * length (currentDealerHand r))"

text \<open>
  The table during a round. In the player's turn the player holds 2 to 5 cards, the
  dealer at most 5, and the deck, four times the dealer's hand and the player's hand
  count at least 58 (a fresh deal gives 48 + 8 + 2, a hit keeps the count, and a
  waiting call that writes its hand and deck brings at least 56). In the dealer's turn
  the deck and four times the dealer's hand count at least 53. The phase is never the
  literal \<open>AutoPlay\<close>.
\<close>

definition tableState :: "game \<Rightarrow> bool" where
  "tableState s =
     (if gamePhase s = PlayerTurn then
        2 \<le> length (playerHand s) \<and> length (playerHand s) \<le> 5
        \<and> length (dealerHand s) \<le> 5
        \<and> 58 \<le> length (deck s) + 4 * length (dealerHand s) + length (playerHand s)
      else if gamePhase s = DealerTurn then
        53 \<le> length (deck s) + 4 * length (dealerHand s)
      else gamePhase s \<noteq> AutoPlay)"

definition tableInv :: "page \<Rightarrow> bool" where
  "tableInv p = (tableState (ui p) \<and> list_all waitingRun (dealerRuns p))"

text \<open>
  The money on the page: the bankroll is not negative and the bet is one of the
  options, in the state and in what every waiting call has captured.
\<close>

definition moneyState :: "game \<Rightarrow> bool" where
  "moneyState s = (0 \<le> bankroll s \<and> betAmount s \<in> set betOptions)"

definition moneyRun :: "dealerRun \<Rightarrow> bool" where
  "moneyRun r = (0 \<le> bankroll_c r \<and> betAmount_c r \<in> set betOptions)"

definition moneyInv :: "page \<Rightarrow> bool" where
  "moneyInv p = (moneyState (ui p) \<and> list_all moneyRun (dealerRuns p))"

text \<open>
  A round in which the dealer draws to six cards below 17, used as an example. The
  shuffle leaves the 10 and 9 of spades to the player, the 2 of hearts and of diamonds
  to the dealer, and then the 2 of clubs, the 2 of spades, the 3 of hearts and the 3 of
  diamonds on top of the deck. The player stands; the dealer's effect starts a call of
  \<open>dealerPlay\<close>, and after every draw that leaves the phase at \<open>'dealerTurn'\<close> the effect
  runs again, as the render of that draw makes it: at the end of \<open>charlieRound\<close> eight
  calls are waiting, each about to draw its sixth card.
\<close>

definition charlieShuffle :: "nat \<Rightarrow> nat" where
  "charlieShuffle =
     id(51 := 47, 50 := 46, 49 := 0, 48 := 13, 47 := 26, 46 := 39, 45 := 1, 44 := 14)"

definition charlieRound :: "event list" where
  "charlieRound =
     [DealClick charlieShuffle, StandClick, RunDealerTurnEffect,
      ResumeDealerPlay 0, RunDealerTurnEffect,
      ResumeDealerPlay 0, RunDealerTurnEffect,
      ResumeDealerPlay 1, RunDealerTurnEffect,
      ResumeDealerPlay 0, RunDealerTurnEffect,
      ResumeDealerPlay 2, RunDealerTurnEffect,
      ResumeDealerPlay 1, RunDealerTurnEffect,
      ResumeDealerPlay 3, RunDealerTurnEffect]"

section \<open>Properties of the hand evaluator\<close>

lemma secondPass_stop:
  "\<not> (tot > 21 \<and> numAces > 0) \<Longrightarrow> secondPass tot numAces = (tot, numAces)"
  by (subst secondPass.simps) auto

lemma secondPass_step:
  "tot > 21 \<Longrightarrow> numAces > 0 \<Longrightarrow>
   secondPass tot numAces = secondPass (tot - 10) (numAces - 1)"
  by (subst secondPass.simps) simp

text \<open>
  C10. Evaluating the empty hand is well defined and gives total 0, not soft; and the
  program does evaluate it: in the state after mounting, in the betting phase, both hands
  are empty and both headings show the total 0.
\<close>

theorem calculateHandValue_empty:
  "calculateHandValue [] = \<lparr>total_hv = 0, isSoft = False\<rparr>
   \<and> gamePhase startState = Betting
   \<and> playerHand startState = [] \<and> dealerHand startState = []
   \<and> playerHeading startState = 0 \<and> dealerHeading startState = Some 0"
  by (simp add: calculateHandValue_def secondPass_stop startState_def resetGame_def
      playerHeading_def dealerHeading_def)

lemma makeCard_value: "value_c (makeCard s r) = baseValue r"
  by (cases r) (simp_all add: makeCard_def)

lemma makeCard_rank: "rank (makeCard s r) = r"
  by (simp add: makeCard_def)

lemma createDeck_makeCard: "c \<in> set createDeck \<Longrightarrow> \<exists>s r. c = makeCard s r"
  by (auto simp: createDeck_def)

lemma makeCard_in_deck: "makeCard s r \<in> set createDeck"
proof -
  have "s \<in> set suits" by (cases s) (simp_all add: suits_def)
  moreover have "r \<in> set ranks" by (cases r) (simp_all add: ranks_def)
  ultimately show ?thesis by (auto simp: createDeck_def)
qed

lemma createDeck_value: "c \<in> set createDeck \<Longrightarrow> value_c c = baseValue (rank c)"
  using createDeck_makeCard [of c] by (auto simp: makeCard_value makeCard_rank)

lemma firstPass_sum:
  "set hand \<subseteq> set createDeck \<Longrightarrow>
   firstPass hand tot n = (tot + rawTotal hand, n + aceCount hand)"
proof (induction hand arbitrary: tot n)
  case Nil
  then show ?case by (simp add: rawTotal_def aceCount_def)
next
  case (Cons c hand)
  then have v: "value_c c = baseValue (rank c)" by (simp add: createDeck_value)
  from Cons show ?case by (simp add: rawTotal_def aceCount_def v)
qed

lemma secondPass_char:
  "\<exists>d\<le>n. secondPass tot n = (tot - 10 * int d, n - d)
        \<and> (tot - 10 * int d \<le> 21 \<or> d = n)
        \<and> (d = 0 \<or> tot - 10 * int d > 11)"
proof (induction tot n rule: secondPass.induct)
  case (1 tot n)
  show ?case
  proof (cases "tot > 21 \<and> n > 0")
    case True
    with 1 obtain d where d: "d \<le> n - 1"
      "secondPass (tot - 10) (n - 1) = (tot - 10 - 10 * int d, n - 1 - d)"
      "tot - 10 - 10 * int d \<le> 21 \<or> d = n - 1"
      "d = 0 \<or> tot - 10 - 10 * int d > 11"
      by blast
    show ?thesis
    proof (intro exI [of _ "Suc d"] conjI)
      show "Suc d \<le> n" using d(1) True by linarith
      show "secondPass tot n = (tot - 10 * int (Suc d), n - Suc d)"
      proof -
        have "n - 1 - d = n - Suc d" by simp
        moreover have "tot - 10 - 10 * int d = tot - 10 * int (Suc d)" by simp
        ultimately show ?thesis using True d(2) by (simp add: secondPass_step)
      qed
      show "tot - 10 * int (Suc d) \<le> 21 \<or> Suc d = n" using d(1,3) True by auto
      show "Suc d = 0 \<or> tot - 10 * int (Suc d) > 11" using d(4) True by auto
    qed
  next
    case False
    then show ?thesis by (intro exI [of _ 0]) (auto simp: secondPass_stop)
  qed
qed

lemma calculateHandValue_char:
  assumes "set hand \<subseteq> set createDeck"
  shows "\<exists>d\<le>aceCount hand.
           total_hv (calculateHandValue hand) = rawTotal hand - 10 * int d
         \<and> (d = 0 \<or> rawTotal hand - 10 * int (d - 1) > 21)
         \<and> (rawTotal hand - 10 * int d \<le> 21 \<or> d = aceCount hand)
         \<and> isSoft (calculateHandValue hand) = (d < aceCount hand)"
proof -
  have fp: "firstPass hand 0 0 = (rawTotal hand, aceCount hand)"
    using firstPass_sum [OF assms, of 0 0] by simp
  obtain d where d: "d \<le> aceCount hand"
    "secondPass (rawTotal hand) (aceCount hand) = (rawTotal hand - 10 * int d, aceCount hand - d)"
    "rawTotal hand - 10 * int d \<le> 21 \<or> d = aceCount hand"
    "d = 0 \<or> rawTotal hand - 10 * int d > 11"
    using secondPass_char [of "aceCount hand" "rawTotal hand"] by blast
  have prev: "d = 0 \<or> rawTotal hand - 10 * int (d - 1) > 21"
  proof (cases d)
    case 0
    then show ?thesis by simp
  next
    case (Suc k)
    then show ?thesis using d(4) by simp
  qed
  show ?thesis
  proof (intro exI [of _ d] conjI)
    show "d \<le> aceCount hand" by (rule d(1))
    show "total_hv (calculateHandValue hand) = rawTotal hand - 10 * int d"
      by (simp add: calculateHandValue_def fp d(2))
    show "d = 0 \<or> rawTotal hand - 10 * int (d - 1) > 21" by (rule prev)
    show "rawTotal hand - 10 * int d \<le> 21 \<or> d = aceCount hand" by (rule d(3))
    show "isSoft (calculateHandValue hand) = (d < aceCount hand)"
      using d(1) by (auto simp: calculateHandValue_def fp d(2))
  qed
qed

lemma hand_A6: "calculateHandValue [makeCard s1 RA, makeCard s2 R6] = \<lparr>total_hv = 17, isSoft = True\<rparr>"
  by (simp add: calculateHandValue_def makeCard_def secondPass.simps)

lemma hand_A6K: "calculateHandValue [makeCard s1 RA, makeCard s2 R6, makeCard s3 RK] = \<lparr>total_hv = 17, isSoft = False\<rparr>"
  by (simp add: calculateHandValue_def makeCard_def secondPass.simps)

lemma hand_AA9: "calculateHandValue [makeCard s1 RA, makeCard s2 RA, makeCard s3 R9] = \<lparr>total_hv = 21, isSoft = True\<rparr>"
  by (simp add: calculateHandValue_def makeCard_def secondPass.simps)

text \<open>
  C3. For every hand of deck cards the evaluator's total is the sum with every ace as 11
  and face cards as 10, less 10 for each of \<open>d\<close> demoted aces, where a demotion only
  happens while the total exceeds 21 (the total before the last demotion was above 21)
  and demoting stops once the total is at most 21 or every ace is demoted; the hand is
  soft iff an ace is left undemoted. The evaluator is a function of the hand alone and
  returns a fresh value, so it cannot change the hand and repeated calls agree.
  In particular \<open>{A, 6}\<close> is soft 17, \<open>{A, 6, K}\<close> is hard 17 and \<open>{A, A, 9}\<close> is soft 21.
\<close>

theorem calculateHandValue_spec:
  "(\<forall>hand. set hand \<subseteq> set createDeck \<longrightarrow>
      (\<exists>d\<le>aceCount hand.
           total_hv (calculateHandValue hand) = rawTotal hand - 10 * int d
         \<and> (d = 0 \<or> rawTotal hand - 10 * int (d - 1) > 21)
         \<and> (rawTotal hand - 10 * int d \<le> 21 \<or> d = aceCount hand)
         \<and> isSoft (calculateHandValue hand) = (d < aceCount hand)))
   \<and> calculateHandValue [makeCard s1 RA, makeCard s2 R6] = \<lparr>total_hv = 17, isSoft = True\<rparr>
   \<and> calculateHandValue [makeCard s1 RA, makeCard s2 R6, makeCard s3 RK]
       = \<lparr>total_hv = 17, isSoft = False\<rparr>
   \<and> calculateHandValue [makeCard s1 RA, makeCard s2 RA, makeCard s3 R9]
       = \<lparr>total_hv = 21, isSoft = True\<rparr>"
  using calculateHandValue_char hand_A6 hand_A6K hand_AA9 by blast

theorem calculateHandValue_spec_witness:
  "set [makeCard Spades RA, makeCard Hearts R6, makeCard Clubs RK] \<subseteq> set createDeck
   \<and> rawTotal [makeCard Spades RA, makeCard Hearts R6, makeCard Clubs RK] = 27
   \<and> aceCount [makeCard Spades RA, makeCard Hearts R6, makeCard Clubs RK] = 1
   \<and> (\<exists>d\<le>1. total_hv (calculateHandValue
                 [makeCard Spades RA, makeCard Hearts R6, makeCard Clubs RK]) = 27 - 10 * int d
           \<and> (d = 0 \<or> 27 - 10 * int (d - 1) > 21)
           \<and> (27 - 10 * int d \<le> 21 \<or> d = 1)
           \<and> isSoft (calculateHandValue
                 [makeCard Spades RA, makeCard Hearts R6, makeCard Clubs RK]) = (d < 1))"
proof -
  let ?h = "[makeCard Spades RA, makeCard Hearts R6, makeCard Clubs RK]"
  have h: "set ?h \<subseteq> set createDeck" by (simp add: makeCard_in_deck)
  have r: "rawTotal ?h = 27" by (simp add: rawTotal_def makeCard_rank)
  have a: "aceCount ?h = 1" by (simp add: aceCount_def makeCard_rank)
  show ?thesis
    using h r a calculateHandValue_spec [THEN conjunct1, rule_format, OF h] by simp
qed

section \<open>The auto-play strategy\<close>

lemma dealerUpCardValue_baseValue: "dealerUpCardValue up = baseValue (rank up)"
  by (cases "rank up") (simp_all add: dealerUpCardValue_def)

lemma soft18_upcards:
  "(dealerUpCardValue up \<notin> set [2, 3, 4, 5, 6, 7, 8]) = (dealerUpCardValue up \<in> {9, 10, 11})"
  by (cases "rank up") (simp_all add: dealerUpCardValue_def)

text \<open>
  C4. The auto-play decision is defined for every hand and up-card and follows the
  priority order: (1) with exactly 5 cards (the count \<open>n\<close> passed by the caller, which is
  the length of the hand) and \<open>21 - total \<ge> 10\<close>, hit; otherwise (2) with total at
  least 21, stand; (3) soft: hit up to 17, on 18 hit iff the up-card value is 9, 10 or
  11, stand from 19; (4) hard: hit up to 11, on 12 stand iff the up-card value is 4, 5 or
  6, on 13 to 16 stand iff it is 2 to 6, stand from 17. The up-card value is the base
  value of its rank: ace 11, face cards 10.
\<close>

theorem shouldAutoPlayHit_table:
  "(let t = total_hv (calculateHandValue pHand);
        soft = isSoft (calculateHandValue pHand);
        v = dealerUpCardValue up;
        hit = shouldAutoPlayHit pHand up n
    in v = baseValue (rank up)
     \<and> (n = 5 \<and> 21 - t \<ge> 10 \<longrightarrow> hit)
     \<and> (\<not> (n = 5 \<and> 21 - t \<ge> 10) \<longrightarrow>
          (t \<ge> 21 \<longrightarrow> \<not> hit)
        \<and> (t < 21 \<and> soft \<longrightarrow>
              (t \<le> 17 \<longrightarrow> hit)
            \<and> (t = 18 \<longrightarrow> hit = (v \<in> {9, 10, 11}))
            \<and> (t \<ge> 19 \<longrightarrow> \<not> hit))
        \<and> (t < 21 \<and> \<not> soft \<longrightarrow>
              (t \<le> 11 \<longrightarrow> hit)
            \<and> (t = 12 \<longrightarrow> (\<not> hit) = (v \<in> {4, 5, 6}))
            \<and> (13 \<le> t \<and> t \<le> 16 \<longrightarrow> (\<not> hit) = (v \<in> {2, 3, 4, 5, 6}))
            \<and> (t \<ge> 17 \<longrightarrow> \<not> hit))))"
  unfolding Let_def
proof (intro conjI impI)
  show "dealerUpCardValue up = baseValue (rank up)" by (rule dealerUpCardValue_baseValue)
qed (auto simp: shouldAutoPlayHit_def Let_def soft18_upcards [simplified])

theorem shouldAutoPlayHit_table_witness:
  "total_hv (calculateHandValue [makeCard Spades RA, makeCard Hearts R7]) = 18
   \<and> isSoft (calculateHandValue [makeCard Spades RA, makeCard Hearts R7])
   \<and> dealerUpCardValue (makeCard Diamonds RK) = 10
   \<and> dealerUpCardValue (makeCard Diamonds R6) = 6
   \<and> shouldAutoPlayHit [makeCard Spades RA, makeCard Hearts R7] (makeCard Diamonds RK) 2
   \<and> \<not> shouldAutoPlayHit [makeCard Spades RA, makeCard Hearts R7] (makeCard Diamonds R6) 2"
proof -
  have t: "calculateHandValue [makeCard Spades RA, makeCard Hearts R7]
           = \<lparr>total_hv = 18, isSoft = True\<rparr>"
    by code_simp
  have k: "dealerUpCardValue (makeCard Diamonds RK) = 10" by code_simp
  have s: "dealerUpCardValue (makeCard Diamonds R6) = 6" by code_simp
  show ?thesis
    using shouldAutoPlayHit_table [of "[makeCard Spades RA, makeCard Hearts R7]"
            "makeCard Diamonds RK" 2]
          shouldAutoPlayHit_table [of "[makeCard Spades RA, makeCard Hearts R7]"
            "makeCard Diamonds R6" 2]
    by (simp add: Let_def t k s)
qed

lemma baseValue_ge2: "2 \<le> baseValue r"
  by (cases r) simp_all

lemma aceCount_le_length: "aceCount hand \<le> length hand"
  by (simp add: aceCount_def)

lemma rawTotal_lower: "2 * int (length hand) + 9 * int (aceCount hand) \<le> rawTotal hand"
proof (induction hand)
  case Nil
  then show ?case by (simp add: rawTotal_def aceCount_def)
next
  case (Cons c hand)
  have "2 \<le> baseValue (rank c)" by (rule baseValue_ge2)
  with Cons show ?case by (auto simp: rawTotal_def aceCount_def)
qed

lemma soft_five_cards:
  assumes deck: "set pHand \<subseteq> set createDeck" and len: "length pHand = 5"
    and soft: "isSoft (calculateHandValue pHand)"
  shows "15 \<le> total_hv (calculateHandValue pHand)"
proof -
  from calculateHandValue_char [OF deck] obtain d where
    d: "total_hv (calculateHandValue pHand) = rawTotal pHand - 10 * int d"
       "isSoft (calculateHandValue pHand) = (d < aceCount pHand)"
    by (elim exE conjE)
  have "aceCount pHand \<le> 5" using aceCount_le_length [of pHand] len by simp
  then have k: "int (aceCount pHand) \<le> 5" by simp
  have lo: "10 + 9 * int (aceCount pHand) \<le> rawTotal pHand"
    using rawTotal_lower [of pHand] len by simp
  have "d < aceCount pHand" using soft d(2) by simp
  then have dk: "int d + 1 \<le> int (aceCount pHand)" by simp
  show ?thesis unfolding d(1) using k lo dk by linarith
qed

text \<open>
  C9. The 5-card test never changes the decision: the function equals the one with the
  test deleted, on every input. For a 5-card hand of deck cards a soft total is at least
  15, so a hand that passes the test (\<open>21 - total \<ge> 10\<close>) is hard with total at most
  11, where the table without the test hits as well.
\<close>

theorem five_card_rule_redundant:
  "shouldAutoPlayHit pHand up n = shouldAutoPlayHit_without5 pHand up n
   \<and> (set pHand \<subseteq> set createDeck \<and> length pHand = 5
        \<and> isSoft (calculateHandValue pHand)
      \<longrightarrow> 15 \<le> total_hv (calculateHandValue pHand))
   \<and> (set pHand \<subseteq> set createDeck \<and> length pHand = 5
        \<and> 21 - total_hv (calculateHandValue pHand) \<ge> 10
      \<longrightarrow> \<not> isSoft (calculateHandValue pHand)
          \<and> total_hv (calculateHandValue pHand) \<le> 11
          \<and> shouldAutoPlayHit_without5 pHand up n)"
proof (intro conjI impI)
  show "shouldAutoPlayHit pHand up n = shouldAutoPlayHit_without5 pHand up n"
    by (auto simp: shouldAutoPlayHit_def shouldAutoPlayHit_without5_def Let_def)
next
  assume "set pHand \<subseteq> set createDeck \<and> length pHand = 5 \<and> isSoft (calculateHandValue pHand)"
  then show "15 \<le> total_hv (calculateHandValue pHand)" by (simp add: soft_five_cards)
next
  assume a: "set pHand \<subseteq> set createDeck \<and> length pHand = 5
        \<and> 21 - total_hv (calculateHandValue pHand) \<ge> 10"
  then show hard: "\<not> isSoft (calculateHandValue pHand)"
    using soft_five_cards [of pHand] by auto
  from a show le: "total_hv (calculateHandValue pHand) \<le> 11" by simp
  from hard le show "shouldAutoPlayHit_without5 pHand up n"
    by (simp add: shouldAutoPlayHit_without5_def Let_def)
qed


theorem five_card_rule_redundant_witness:
  "set [makeCard Hearts R2, makeCard Diamonds R2, makeCard Clubs R2, makeCard Spades R2,
        makeCard Hearts R3] \<subseteq> set createDeck
   \<and> length [makeCard Hearts R2, makeCard Diamonds R2, makeCard Clubs R2, makeCard Spades R2,
        makeCard Hearts R3] = 5
   \<and> 21 - total_hv (calculateHandValue [makeCard Hearts R2, makeCard Diamonds R2,
        makeCard Clubs R2, makeCard Spades R2, makeCard Hearts R3]) \<ge> 10
   \<and> \<not> isSoft (calculateHandValue [makeCard Hearts R2, makeCard Diamonds R2,
        makeCard Clubs R2, makeCard Spades R2, makeCard Hearts R3])
   \<and> shouldAutoPlayHit_without5 [makeCard Hearts R2, makeCard Diamonds R2,
        makeCard Clubs R2, makeCard Spades R2, makeCard Hearts R3] (makeCard Spades R6) 5
   \<and> shouldAutoPlayHit [makeCard Hearts R2, makeCard Diamonds R2,
        makeCard Clubs R2, makeCard Spades R2, makeCard Hearts R3] (makeCard Spades R6) 5"
proof -
  let ?h = "[makeCard Hearts R2, makeCard Diamonds R2, makeCard Clubs R2, makeCard Spades R2,
        makeCard Hearts R3]"
  have d: "set ?h \<subseteq> set createDeck" by (simp add: makeCard_in_deck)
  have t: "total_hv (calculateHandValue ?h) = 11" by code_simp
  have g: "21 - total_hv (calculateHandValue ?h) \<ge> 10" by (simp add: t)
  show ?thesis
    using d g five_card_rule_redundant [of ?h "makeCard Spades R6" 5] by simp
qed

section \<open>Settlement\<close>

lemma determineWinner_outcome:
  "lastHandResult (determineWinner bankroll0 pHand dHand bet s) =
     (if total_hv (calculateHandValue pHand) > 21 then Loss
      else if total_hv (calculateHandValue dHand) > 21 then Win
      else if length pHand = 6 \<and> total_hv (calculateHandValue pHand) \<le> 21 then Win
      else if length dHand = 6 \<and> total_hv (calculateHandValue dHand) < 17 then Win
      else if total_hv (calculateHandValue pHand) > total_hv (calculateHandValue dHand) then Win
      else if total_hv (calculateHandValue dHand) > total_hv (calculateHandValue pHand) then Loss
      else Push)"
  by (simp add: determineWinner_def Let_def)

lemma determineWinner_delta:
  "bankroll (determineWinner (bankroll s) pHand dHand bet s) =
     (if total_hv (calculateHandValue pHand) > 21 then bankroll s
      else if total_hv (calculateHandValue dHand) > 21 then bankroll s + bet * 2
      else if length pHand = 6 \<and> total_hv (calculateHandValue pHand) \<le> 21
        then bankroll s + bet * 2
      else if length dHand = 6 \<and> total_hv (calculateHandValue dHand) < 17
        then bankroll s + bet * 2
      else if total_hv (calculateHandValue pHand) > total_hv (calculateHandValue dHand)
        then bankroll s + bet * 2
      else if total_hv (calculateHandValue dHand) > total_hv (calculateHandValue pHand)
        then bankroll s
      else bankroll s + bet)"
  by (simp add: determineWinner_def Let_def)

lemma determineWinner_phase: "gamePhase (determineWinner bankroll0 pHand dHand bet s) = Result"
  by (simp add: determineWinner_def Let_def)

text \<open>
  C2. Settlement resolves by the first matching rule: player above 21, loss, bankroll
  unchanged; dealer above 21, win, plus twice the bet; player with 6 cards, win, plus
  twice the bet; dealer with 6 cards below 17, win, plus twice the bet; player total
  above dealer total, win, plus twice the bet; dealer total above player total, loss,
  unchanged; equal totals, push, plus the bet. The phase becomes \<open>Result\<close>. The
  change is that of a call made from the render of the state it acts on, whose bankroll
  it has read.
\<close>

theorem determineWinner_rules:
  "(let playerVal = total_hv (calculateHandValue pHand);
        dealerVal = total_hv (calculateHandValue dHand);
        s' = determineWinner (bankroll s) pHand dHand bet s;
        outcome = lastHandResult s';
        delta = bankroll s' - bankroll s
    in gamePhase s' = Result
     \<and> (playerVal > 21 \<longrightarrow> outcome = Loss \<and> delta = 0)
     \<and> (playerVal \<le> 21 \<and> dealerVal > 21 \<longrightarrow> outcome = Win \<and> delta = 2 * bet)
     \<and> (playerVal \<le> 21 \<and> dealerVal \<le> 21 \<and> length pHand = 6
          \<longrightarrow> outcome = Win \<and> delta = 2 * bet)
     \<and> (playerVal \<le> 21 \<and> dealerVal \<le> 21 \<and> length pHand \<noteq> 6
          \<and> length dHand = 6 \<and> dealerVal < 17
          \<longrightarrow> outcome = Win \<and> delta = 2 * bet)
     \<and> (playerVal \<le> 21 \<and> dealerVal \<le> 21 \<and> length pHand \<noteq> 6
          \<and> \<not> (length dHand = 6 \<and> dealerVal < 17) \<and> playerVal > dealerVal
          \<longrightarrow> outcome = Win \<and> delta = 2 * bet)
     \<and> (playerVal \<le> 21 \<and> dealerVal \<le> 21 \<and> length pHand \<noteq> 6
          \<and> \<not> (length dHand = 6 \<and> dealerVal < 17) \<and> dealerVal > playerVal
          \<longrightarrow> outcome = Loss \<and> delta = 0)
     \<and> (playerVal \<le> 21 \<and> dealerVal \<le> 21 \<and> length pHand \<noteq> 6
          \<and> \<not> (length dHand = 6 \<and> dealerVal < 17) \<and> playerVal = dealerVal
          \<longrightarrow> outcome = Push \<and> delta = bet))"
  unfolding Let_def determineWinner_outcome determineWinner_delta determineWinner_phase
  by (intro conjI impI) (simp_all, blast+)

theorem determineWinner_rules_witness:
  "total_hv (calculateHandValue [makeCard Spades R10, makeCard Hearts R10]) = 20
   \<and> total_hv (calculateHandValue [makeCard Spades R9, makeCard Hearts R9]) = 18
   \<and> lastHandResult (determineWinner (bankroll startState) [makeCard Spades R10, makeCard Hearts R10]
         [makeCard Spades R9, makeCard Hearts R9] 10 startState) = Win
   \<and> bankroll (determineWinner (bankroll startState) [makeCard Spades R10, makeCard Hearts R10]
         [makeCard Spades R9, makeCard Hearts R9] 10 startState) - bankroll startState = 20
   \<and> total_hv (calculateHandValue [makeCard Spades R10, makeCard Hearts R9]) = 19
   \<and> total_hv (calculateHandValue [makeCard Clubs R10, makeCard Diamonds R9]) = 19
   \<and> lastHandResult (determineWinner (bankroll startState) [makeCard Spades R10, makeCard Hearts R9]
         [makeCard Clubs R10, makeCard Diamonds R9] 10 startState) = Push
   \<and> bankroll (determineWinner (bankroll startState) [makeCard Spades R10, makeCard Hearts R9]
         [makeCard Clubs R10, makeCard Diamonds R9] 10 startState) - bankroll startState = 10
   \<and> total_hv (calculateHandValue [makeCard Spades R10, makeCard Hearts R7,
         makeCard Hearts R5]) = 22
   \<and> lastHandResult (determineWinner (bankroll startState) [makeCard Spades R10, makeCard Hearts R7,
         makeCard Hearts R5] [makeCard Spades R9, makeCard Hearts R9] 10 startState) = Loss
   \<and> bankroll (determineWinner (bankroll startState) [makeCard Spades R10, makeCard Hearts R7,
         makeCard Hearts R5] [makeCard Spades R9, makeCard Hearts R9] 10 startState)
       - bankroll startState = 0
   \<and> total_hv (calculateHandValue [makeCard Hearts R2, makeCard Diamonds R2,
         makeCard Clubs R3, makeCard Spades R3, makeCard Hearts R4, makeCard Diamonds R6]) = 20
   \<and> total_hv (calculateHandValue [makeCard Spades R10, makeCard Hearts R5,
         makeCard Hearts R6]) = 21
   \<and> lastHandResult (determineWinner (bankroll startState) [makeCard Hearts R2, makeCard Diamonds R2,
         makeCard Clubs R3, makeCard Spades R3, makeCard Hearts R4, makeCard Diamonds R6]
         [makeCard Spades R10, makeCard Hearts R5, makeCard Hearts R6] 10 startState) = Win"
proof -
  have a: "total_hv (calculateHandValue [makeCard Spades R10, makeCard Hearts R10]) = 20"
    by code_simp
  have b: "total_hv (calculateHandValue [makeCard Spades R9, makeCard Hearts R9]) = 18"
    by code_simp
  have c: "total_hv (calculateHandValue [makeCard Spades R10, makeCard Hearts R9]) = 19"
    by code_simp
  have d: "total_hv (calculateHandValue [makeCard Clubs R10, makeCard Diamonds R9]) = 19"
    by code_simp
  have e: "total_hv (calculateHandValue [makeCard Spades R10, makeCard Hearts R7,
         makeCard Hearts R5]) = 22"
    by code_simp
  have f: "total_hv (calculateHandValue [makeCard Hearts R2, makeCard Diamonds R2,
         makeCard Clubs R3, makeCard Spades R3, makeCard Hearts R4, makeCard Diamonds R6]) = 20"
    by code_simp
  have g: "total_hv (calculateHandValue [makeCard Spades R10, makeCard Hearts R5,
         makeCard Hearts R6]) = 21"
    by code_simp
  have w1: "lastHandResult (determineWinner (bankroll startState) [makeCard Spades R10, makeCard Hearts R10]
         [makeCard Spades R9, makeCard Hearts R9] 10 startState) = Win
   \<and> bankroll (determineWinner (bankroll startState) [makeCard Spades R10, makeCard Hearts R10]
         [makeCard Spades R9, makeCard Hearts R9] 10 startState) - bankroll startState = 20"
    using determineWinner_rules [of "[makeCard Spades R10, makeCard Hearts R10]"
         "[makeCard Spades R9, makeCard Hearts R9]" startState 10]
    by (simp add: Let_def a b)
  have w2: "lastHandResult (determineWinner (bankroll startState) [makeCard Spades R10, makeCard Hearts R9]
         [makeCard Clubs R10, makeCard Diamonds R9] 10 startState) = Push
   \<and> bankroll (determineWinner (bankroll startState) [makeCard Spades R10, makeCard Hearts R9]
         [makeCard Clubs R10, makeCard Diamonds R9] 10 startState) - bankroll startState = 10"
    using determineWinner_rules [of "[makeCard Spades R10, makeCard Hearts R9]"
         "[makeCard Clubs R10, makeCard Diamonds R9]" startState 10]
    by (simp add: Let_def c d)
  have w3: "lastHandResult (determineWinner (bankroll startState) [makeCard Spades R10, makeCard Hearts R7,
         makeCard Hearts R5] [makeCard Spades R9, makeCard Hearts R9] 10 startState) = Loss
   \<and> bankroll (determineWinner (bankroll startState) [makeCard Spades R10, makeCard Hearts R7,
         makeCard Hearts R5] [makeCard Spades R9, makeCard Hearts R9] 10 startState)
       - bankroll startState = 0"
    using determineWinner_rules [of "[makeCard Spades R10, makeCard Hearts R7,
         makeCard Hearts R5]" "[makeCard Spades R9, makeCard Hearts R9]" startState 10]
    by (simp add: Let_def e b)
  have w4: "lastHandResult (determineWinner (bankroll startState) [makeCard Hearts R2, makeCard Diamonds R2,
         makeCard Clubs R3, makeCard Spades R3, makeCard Hearts R4, makeCard Diamonds R6]
         [makeCard Spades R10, makeCard Hearts R5, makeCard Hearts R6] 10 startState) = Win"
    using determineWinner_rules [of "[makeCard Hearts R2, makeCard Diamonds R2,
         makeCard Clubs R3, makeCard Spades R3, makeCard Hearts R4, makeCard Diamonds R6]"
         "[makeCard Spades R10, makeCard Hearts R5, makeCard Hearts R6]" startState 10]
    by (simp add: Let_def f g)
  show ?thesis using a b c d e f g w1 w2 w3 w4 by blast
qed

section \<open>Dealing\<close>

lemma dealHand_rejected:
  assumes "bankroll s < betAmount s"
  shows "dealHand rnd s =
     (if gamePhase s = Betting \<or> gamePhase s = Result
      then s\<lparr>message := ''Not enough money to place this bet!'', autoPlayMode := False\<rparr>
      else s)"
  using assms by (auto simp: dealHand_def)

text \<open>
  C6. A deal with the bankroll below the bet is rejected: from the betting or result
  phase only the message changes and auto-play is switched off; bankroll, throughput,
  deck, both hands and phase are as before (from any other phase nothing changes at
  all). The auto-play effect, which deals in the betting phase, therefore leaves the
  same state and completes no deal.
\<close>

theorem deal_rejected:
  assumes "bankroll s < betAmount s"
  shows "dealHand rnd s =
           (if gamePhase s = Betting \<or> gamePhase s = Result
            then s\<lparr>message := ''Not enough money to place this bet!'',
                   autoPlayMode := False\<rparr>
            else s)
       \<and> bankroll (dealHand rnd s) = bankroll s
       \<and> throughput (dealHand rnd s) = throughput s
       \<and> deck (dealHand rnd s) = deck s
       \<and> playerHand (dealHand rnd s) = playerHand s
       \<and> dealerHand (dealHand rnd s) = dealerHand s
       \<and> gamePhase (dealHand rnd s) = gamePhase s
       \<and> (gamePhase s = Betting \<or> gamePhase s = Result \<longrightarrow> \<not> autoPlayMode (dealHand rnd s))
       \<and> (autoPlayMode s \<and> gamePhase s = Betting \<longrightarrow>
            autoPlayEffect rnd s =
              Inr (s\<lparr>message := ''Not enough money to place this bet!'',
                      autoPlayMode := False\<rparr>))"
proof -
  have "bankroll (s\<lparr>message := ''Auto-play: Dealing new hand...''\<rparr>)
        < betAmount (s\<lparr>message := ''Auto-play: Dealing new hand...''\<rparr>)"
    using assms by simp
  then have "dealHand rnd (s\<lparr>message := ''Auto-play: Dealing new hand...''\<rparr>) =
     (if gamePhase s = Betting \<or> gamePhase s = Result
      then s\<lparr>message := ''Not enough money to place this bet!'', autoPlayMode := False\<rparr>
      else s\<lparr>message := ''Auto-play: Dealing new hand...''\<rparr>)"
    by (simp add: dealHand_rejected)
  then show ?thesis
    using dealHand_rejected [OF assms, of rnd] by (simp add: autoPlayEffect_def)
qed

theorem deal_rejected_witness:
  "bankroll (startState\<lparr>bankroll := 5, autoPlayMode := True\<rparr>)
     < betAmount (startState\<lparr>bankroll := 5, autoPlayMode := True\<rparr>)
   \<and> gamePhase (startState\<lparr>bankroll := 5, autoPlayMode := True\<rparr>) = Betting
   \<and> dealHand id (startState\<lparr>bankroll := 5, autoPlayMode := True\<rparr>)
       = startState\<lparr>bankroll := 5, message := ''Not enough money to place this bet!''\<rparr>
   \<and> autoPlayEffect id (startState\<lparr>bankroll := 5, autoPlayMode := True\<rparr>)
       = Inr (startState\<lparr>bankroll := 5, message := ''Not enough money to place this bet!''\<rparr>)"
proof -
  have h: "bankroll (startState\<lparr>bankroll := 5, autoPlayMode := True\<rparr>)
     < betAmount (startState\<lparr>bankroll := 5, autoPlayMode := True\<rparr>)"
    by (simp add: startState_def resetGame_def initialState_def)
  show ?thesis
    using h deal_rejected [OF h, of id]
    by (simp add: startState_def resetGame_def initialState_def)
qed


lemma blackjacks_both:
  assumes "total_hv (calculateHandValue p) = 21" and "length p = 2"
    and "total_hv (calculateHandValue d) = 21" and "length d = 2"
  shows "dealHand_blackjacks p d bet s =
     s\<lparr>message := ''Dealer has Blackjack! You lose.'', bankroll := bankroll s + bet,
       gamePhase := Result, lastHandResult := Loss,
       lastPlayerTotal := 21, lastDealerTotal := 21\<rparr>"
  using assms by (simp add: dealHand_blackjacks_def Let_def)

lemma blackjacks_player_only:
  assumes "total_hv (calculateHandValue p) = 21" and "length p = 2"
    and "total_hv (calculateHandValue d) \<noteq> 21"
  shows "dealHand_blackjacks p d bet s =
     s\<lparr>message := ''Blackjack! You win!'', bankroll := bankroll s + bet * 2,
       gamePhase := Result, lastHandResult := Win,
       lastPlayerTotal := 21,
       lastDealerTotal := total_hv (calculateHandValue d)\<rparr>"
  using assms by (simp add: dealHand_blackjacks_def Let_def)

text \<open>
  C1, at a deal where both sides hold a natural blackjack (the shuffle leaves the ace
  and king of spades to the player, the ace of hearts and jack of spades to the dealer):
  the bet is returned, but the test for a dealer blackjack at line 239 runs as well, so
  the result recorded is a loss, with the message of a loss, not a push.
\<close>

theorem both_blackjacks_recorded_as_loss:
  "playerHand (dealHand (id(49 := 12)) startState) = [makeCard Spades RA, makeCard Spades RK]
   \<and> dealerHand (dealHand (id(49 := 12)) startState) = [makeCard Hearts RA, makeCard Spades RJ]
   \<and> total_hv (calculateHandValue (playerHand (dealHand (id(49 := 12)) startState))) = 21
   \<and> total_hv (calculateHandValue (dealerHand (dealHand (id(49 := 12)) startState))) = 21
   \<and> gamePhase (dealHand (id(49 := 12)) startState) = Result
   \<and> lastHandResult (dealHand (id(49 := 12)) startState) = Loss
   \<and> message (dealHand (id(49 := 12)) startState) = ''Dealer has Blackjack! You lose.''
   \<and> bankroll startState = 1000
   \<and> bankroll (dealHand (id(49 := 12)) startState) = 1000"
proof -
  have 1: "playerHand (dealHand (id(49 := 12)) startState)
           = [makeCard Spades RA, makeCard Spades RK]"
    by code_simp
  have 2: "dealerHand (dealHand (id(49 := 12)) startState)
           = [makeCard Hearts RA, makeCard Spades RJ]"
    by code_simp
  have 3: "total_hv (calculateHandValue [makeCard Spades RA, makeCard Spades RK]) = 21"
    by code_simp
  have 4: "total_hv (calculateHandValue [makeCard Hearts RA, makeCard Spades RJ]) = 21"
    by code_simp
  have 5: "gamePhase (dealHand (id(49 := 12)) startState) = Result"
    by code_simp
  have 6: "lastHandResult (dealHand (id(49 := 12)) startState) = Loss"
    by code_simp
  have 7: "message (dealHand (id(49 := 12)) startState) = ''Dealer has Blackjack! You lose.''"
    by code_simp
  have 8: "bankroll startState = 1000"
    by code_simp
  have 9: "bankroll (dealHand (id(49 := 12)) startState) = 1000"
    by code_simp
  show ?thesis
    unfolding 1 2 using 3 4 5 6 7 8 9 by blast
qed

section \<open>The dealer's turn\<close>

lemma determineWinner_fields:
  "deck (determineWinner bankroll0 pHand dHand bet s) = deck s
   \<and> playerHand (determineWinner bankroll0 pHand dHand bet s) = playerHand s
   \<and> dealerHand (determineWinner bankroll0 pHand dHand bet s) = dealerHand s
   \<and> betAmount (determineWinner bankroll0 pHand dHand bet s) = betAmount s
   \<and> throughput (determineWinner bankroll0 pHand dHand bet s) = throughput s"
  by (simp add: determineWinner_def Let_def)

lemma determineWinner_bankroll:
  "bankroll (determineWinner bankroll0 pHand dHand bet s)
     \<in> {bankroll s, bankroll0 + bet, bankroll0 + bet * 2}"
  by (simp add: determineWinner_def Let_def)

lemma dealerPlay_finish_fields:
  "gamePhase (dealerPlay_finish r s) = Result
   \<and> deck (dealerPlay_finish r s) = deck s
   \<and> playerHand (dealerPlay_finish r s) = playerHand s
   \<and> dealerHand (dealerPlay_finish r s) = dealerHand s
   \<and> betAmount (dealerPlay_finish r s) = betAmount s
   \<and> throughput (dealerPlay_finish r s) = throughput s"
  by (simp add: dealerPlay_finish_def Let_def determineWinner_fields determineWinner_phase)

lemma dealerPlay_finish_bankroll:
  "bankroll (dealerPlay_finish r s)
     \<in> {bankroll s, bankroll s + betAmount_c r * 2,
        bankroll_c r + betAmount_c r, bankroll_c r + betAmount_c r * 2}"
  using determineWinner_bankroll [of "bankroll_c r" "playerHand_c r" "currentDealerHand r"
      "betAmount_c r" s]
  by (auto simp: dealerPlay_finish_def Let_def)

lemma loopHead_waits:
  "(snd (dealerPlay_loopHead r s) \<noteq> None)
     = (dealerTotal r < 17 \<and> length (currentDealerHand r) < 6 \<and> currentDeck r \<noteq> [])"
  by (auto simp: dealerPlay_loopHead_def)

lemma loopHead_Some:
  "dealerPlay_loopHead r s = (s', Some r') \<Longrightarrow>
   s' = s \<and> r' = r \<and> dealerTotal r < 17 \<and> length (currentDealerHand r) < 6
   \<and> currentDeck r \<noteq> []"
  by (auto simp: dealerPlay_loopHead_def split: if_splits)

lemma loopHead_None:
  "dealerPlay_loopHead r s = (s', None) \<Longrightarrow>
   s' = dealerPlay_finish r s
   \<or> s' = dealerPlay_finish r (s\<lparr>message := ''Deck is empty! Dealer cannot draw more.''\<rparr>)"
  by (auto simp: dealerPlay_loopHead_def split: if_splits)

lemma loopHead_stops:
  "\<not> (dealerTotal r < 17 \<and> length (currentDealerHand r) < 6) \<Longrightarrow>
   dealerPlay_loopHead r s = (dealerPlay_finish r s, None)"
  by (auto simp: dealerPlay_loopHead_def)

section \<open>The deck during a round\<close>

lemma length_shuffleLoop: "length (shuffleLoop n rnd cards) = length cards"
  by (induction n arbitrary: cards) (simp_all add: Let_def)

lemma length_createDeck: "length createDeck = 52"
  by (simp add: createDeck_def suits_def ranks_def)

lemma length_shuffled: "length (shuffleDeck rnd createDeck) = 52"
  by (simp add: shuffleDeck_def length_shuffleLoop length_createDeck)

lemma pop_length: "pop xs = (c, ys) \<Longrightarrow> length ys = length xs - 1"
  by (auto simp: pop_def)

lemma blackjacks_table:
  "deck (dealHand_blackjacks p d bet s) = deck s
   \<and> playerHand (dealHand_blackjacks p d bet s) = playerHand s
   \<and> dealerHand (dealHand_blackjacks p d bet s) = dealerHand s
   \<and> (gamePhase (dealHand_blackjacks p d bet s) = gamePhase s
      \<or> gamePhase (dealHand_blackjacks p d bet s) = Result)"
  by (simp add: dealHand_blackjacks_def Let_def)

lemma dealHand_tableState: "tableState s \<Longrightarrow> tableState (dealHand rnd s)"
proof (cases "(gamePhase s = Betting \<or> gamePhase s = Result) \<and> \<not> bankroll s < betAmount s")
  case False
  then show "tableState s \<Longrightarrow> tableState (dealHand rnd s)"
    by (auto simp: dealHand_def tableState_def)
next
  case True
  obtain c1 d1 where p1: "pop (shuffleDeck rnd createDeck) = (c1, d1)" by fastforce
  obtain c2 d2 where p2: "pop d1 = (c2, d2)" by fastforce
  obtain c3 d3 where p3: "pop d2 = (c3, d3)" by fastforce
  obtain c4 d4 where p4: "pop d3 = (c4, d4)" by fastforce
  have l: "length d4 = 48"
    using pop_length [OF p1] pop_length [OF p2] pop_length [OF p3] pop_length [OF p4]
    by (simp add: length_shuffled)
  let ?s1 = "s\<lparr>bankroll := bankroll s - betAmount s,
                throughput := throughput s + betAmount s,
                deck := d4, playerHand := [c1, c2], dealerHand := [c3, c4],
                gamePhase := PlayerTurn, message := ''Your turn: Hit or Stand?'',
                lastPlayerTotal := 0, lastDealerTotal := 0, lastHandResult := NoResult\<rparr>"
  have d: "dealHand rnd s = dealHand_blackjacks [c1, c2] [c3, c4] (betAmount s) ?s1"
    using True by (auto simp: dealHand_def p1 p2 p3 p4)
  show "tableState (dealHand rnd s)"
    unfolding d using blackjacks_table [of "[c1, c2]" "[c3, c4]" "betAmount s" ?s1] l
    by (auto simp: tableState_def)
qed

lemma hitPlayer_tableState: "tableState s \<Longrightarrow> tableState (hitPlayer s)"
  by (auto simp: hitPlayer_def tableState_def Let_def pop_def split: if_splits)

lemma standPlayer_tableState: "tableState s \<Longrightarrow> tableState (standPlayer s)"
  by (auto simp: standPlayer_def tableState_def split: if_splits)

lemma message_tableState: "tableState (s\<lparr>message := m\<rparr>) = tableState s"
  by (simp add: tableState_def)

lemma autoPlayPlayerTurnAction_tableState:
  assumes inv: "tableState s" and r: "autoPlayPlayerTurnAction s = Inr s'"
  shows "tableState s'"
proof -
  have a: "tableState (hitPlayer (s\<lparr>message := ''Auto-play: Hitting...''\<rparr>))"
    using inv by (simp add: hitPlayer_tableState message_tableState)
  have b: "tableState (standPlayer (s\<lparr>message := ''Auto-play: Standing...''\<rparr>))"
    using inv by (simp add: standPlayer_tableState message_tableState)
  show ?thesis
    using r inv a b
    by (auto simp: autoPlayPlayerTurnAction_def Let_def message_tableState
        split: if_splits list.splits)
qed

lemma autoPlayEffect_tableState:
  assumes inv: "tableState s" and r: "autoPlayEffect rnd s = Inr s'"
  shows "tableState s'"
proof -
  have a: "tableState (dealHand rnd (s\<lparr>message := ''Auto-play: Dealing new hand...''\<rparr>))"
    using inv by (simp add: dealHand_tableState message_tableState)
  have b: "tableState (s\<lparr>message := ''Auto-play: Player's turn...''\<rparr>)"
    using inv by (simp add: message_tableState)
  show ?thesis
    using r inv a autoPlayPlayerTurnAction_tableState [OF b, of s']
    by (auto simp: autoPlayEffect_def tableState_def split: if_splits)
qed

lemma finish_tableState: "tableState (dealerPlay_finish r s)"
  by (simp add: tableState_def dealerPlay_finish_fields)

lemma loopHead_tableState:
  assumes "tableState s" and "dealerPlay_loopHead r s = (s', ro)"
  shows "tableState s'"
proof (cases ro)
  case None
  then show ?thesis using assms(2) loopHead_None [of r s s'] finish_tableState by auto
next
  case (Some r')
  then show ?thesis using assms loopHead_Some [of r s s' r'] by simp
qed

lemma start_table:
  assumes st: "tableState s" and ph: "gamePhase s = DealerTurn"
    and r: "dealerPlay_start s = (s', ro)"
  shows "tableState s' \<and> (\<forall>r'. ro = Some r' \<longrightarrow> waitingRun r')"
proof -
  let ?r = "\<lparr>bankroll_c = bankroll s, betAmount_c = betAmount s, playerHand_c = playerHand s,
        currentDealerHand = dealerHand s, currentDeck = deck s,
        dealerTotal = total_hv (calculateHandValue (dealerHand s))\<rparr>"
  have lh: "dealerPlay_loopHead ?r s = (s', ro)" using r by (simp add: dealerPlay_start_def)
  have t: "tableState s'" by (rule loopHead_tableState [OF st lh])
  have w: "waitingRun r'" if "ro = Some r'" for r'
  proof -
    from that lh have "r' = ?r \<and> dealerTotal ?r < 17 \<and> length (currentDealerHand ?r) < 6"
      using loopHead_Some [of ?r s s' r'] by simp
    then show ?thesis using st ph by (simp add: waitingRun_def tableState_def)
  qed
  show ?thesis using t w by blast
qed

lemma waitingRun_deck: "waitingRun r \<Longrightarrow> 33 \<le> length (currentDeck r)"
  by (simp add: waitingRun_def)

lemma resume_table:
  assumes st: "tableState s" and wr: "waitingRun r"
    and r: "dealerPlay_resume r s = (s', ro)"
  shows "tableState s' \<and> (\<forall>r'. ro = Some r' \<longrightarrow> waitingRun r')"
proof -
  let ?h = "currentDealerHand r @ [last (currentDeck r)]"
  let ?d = "butlast (currentDeck r)"
  let ?r = "r\<lparr>currentDealerHand := ?h, currentDeck := ?d,
             dealerTotal := total_hv (calculateHandValue ?h)\<rparr>"
  let ?s = "s\<lparr>dealerHand := ?h, deck := ?d\<rparr>"
  have lh: "dealerPlay_loopHead ?r ?s = (s', ro)"
    using r by (simp add: dealerPlay_resume_def pop_def)
  have big: "33 \<le> length (currentDeck r)" by (rule waitingRun_deck [OF wr])
  have cnt: "56 \<le> length ?d + 4 * length ?h" using wr big by (simp add: waitingRun_def)
  show ?thesis
  proof (cases ro)
    case None
    then have "tableState s'" using lh loopHead_None [of ?r ?s s'] finish_tableState by auto
    then show ?thesis using None by simp
  next
    case (Some r')
    then have e: "s' = ?s" "r' = ?r" "dealerTotal ?r < 17" "length (currentDealerHand ?r) < 6"
      using lh loopHead_Some [of ?r ?s s' r'] by simp_all
    have w: "waitingRun r'" using e cnt by (simp add: waitingRun_def)
    have "length ?h \<le> 5" using e(4) by simp
    then have "tableState ?s" using st cnt by (auto simp: tableState_def)
    then show ?thesis using e(1) w Some by simp
  qed
qed

lemma list_all_remove:
  "list_all P xs \<Longrightarrow> list_all P (take i xs) \<and> list_all P (drop j xs)"
  by (auto simp: list_all_iff dest: in_set_takeD in_set_dropD)

lemma list_all_update: "list_all P xs \<Longrightarrow> P x \<Longrightarrow> list_all P (xs[i := x])"
  by (auto simp: list_all_iff dest: set_update_subset_insert [THEN subsetD])

lemma list_all_nth: "list_all P xs \<Longrightarrow> i < length xs \<Longrightarrow> P (xs ! i)"
  by (simp add: list_all_length)

lemma step_tableInv: "tableInv p \<Longrightarrow> tableInv (step e p)"
proof (cases e)
  case (DealClick rnd)
  then show "tableInv p \<Longrightarrow> tableInv (step e p)"
    by (simp add: tableInv_def dealHand_tableState)
next
  case HitClick
  then show "tableInv p \<Longrightarrow> tableInv (step e p)"
    by (simp add: tableInv_def hitPlayer_tableState)
next
  case StandClick
  then show "tableInv p \<Longrightarrow> tableInv (step e p)"
    by (simp add: tableInv_def standPlayer_tableState)
next
  case AutoPlayClick
  then show "tableInv p \<Longrightarrow> tableInv (step e p)"
    by (simp add: tableInv_def toggleAutoPlay_def tableState_def)
next
  case ResetClick
  then show "tableInv p \<Longrightarrow> tableInv (step e p)"
    by (simp add: tableInv_def resetGame_def tableState_def)
next
  case (BetSelect a)
  then show "tableInv p \<Longrightarrow> tableInv (step e p)"
    by (simp add: tableInv_def selectBet_def tableState_def)
next
  case RunDealerTurnEffect
  assume inv: "tableInv p"
  obtain s' ro where r: "dealerTurnEffect (ui p) = (s', ro)" by fastforce
  show "tableInv (step e p)"
  proof (cases "gamePhase (ui p) = DealerTurn")
    case True
    then have "dealerPlay_start (ui p) = (s', ro)" using r by (simp add: dealerTurnEffect_def)
    from start_table [OF _ True this] inv
    have "tableState s' \<and> (\<forall>r'. ro = Some r' \<longrightarrow> waitingRun r')" by (simp add: tableInv_def)
    then show ?thesis using inv RunDealerTurnEffect r
      by (cases ro) (simp_all add: tableInv_def)
  next
    case False
    then show ?thesis using inv RunDealerTurnEffect
      by (simp add: dealerTurnEffect_def)
  qed
next
  case (ResumeDealerPlay i)
  assume inv: "tableInv p"
  show "tableInv (step e p)"
  proof (cases "i < length (dealerRuns p)")
    case False
    then show ?thesis using inv ResumeDealerPlay by simp
  next
    case True
    obtain s' ro where r: "dealerPlay_resume (dealerRuns p ! i) (ui p) = (s', ro)" by fastforce
    have wr: "waitingRun (dealerRuns p ! i)"
      using inv True by (simp add: tableInv_def list_all_nth)
    from resume_table [OF _ wr r] inv
    have t: "tableState s' \<and> (\<forall>r'. ro = Some r' \<longrightarrow> waitingRun r')" by (simp add: tableInv_def)
    show ?thesis
    proof (cases ro)
      case None
      then show ?thesis using inv ResumeDealerPlay True r t
        by (simp add: tableInv_def list_all_remove)
    next
      case (Some r')
      then show ?thesis using inv ResumeDealerPlay True r t
        by (simp add: tableInv_def list_all_update)
    qed
  qed
next
  case RunPointsEffect
  then show "tableInv p \<Longrightarrow> tableInv (step e p)"
    by (simp add: tableInv_def pointsEffect_def tableState_def)
next
  case (RunAutoPlayEffect rnd)
  then show "tableInv p \<Longrightarrow> tableInv (step e p)"
    using autoPlayEffect_tableState [of "ui p" rnd]
    by (auto simp: tableInv_def split: sum.splits)
next
  case RunResultEffect
  then show "tableInv p \<Longrightarrow> tableInv (step e p)"
    by (simp add: tableInv_def resultEffect_def tableState_def)
qed

lemma run_tableInv: "tableInv p \<Longrightarrow> tableInv (run es p)"
  by (induction es arbitrary: p) (simp_all add: step_tableInv)

lemma startPage_tableInv: "tableInv startPage"
  by (simp add: startPage_def startState_def resetGame_def initialState_def tableInv_def
      tableState_def)

text \<open>
  The table is as described in every page the machine reaches, whatever calls of
  \<open>dealerPlay\<close> are waiting and whenever they go on.
\<close>

lemma reachable_tableInv: "tableInv (run es startPage)"
  by (simp add: run_tableInv startPage_tableInv)

section \<open>The dealer's decision to draw\<close>

lemma long_list: "2 \<le> length xs \<Longrightarrow> xs \<noteq> [] \<and> butlast xs \<noteq> []"
  by (cases xs) auto

lemma resume_dealerHand:
  "dealerHand (fst (dealerPlay_resume r s)) = currentDealerHand r @ [last (currentDeck r)]"
  by (simp add: dealerPlay_resume_def pop_def dealerPlay_loopHead_def dealerPlay_finish_fields)

lemma resume_waits:
  "(snd (dealerPlay_resume r s) \<noteq> None)
     = (total_hv (calculateHandValue (currentDealerHand r @ [last (currentDeck r)])) < 17
        \<and> length (currentDealerHand r @ [last (currentDeck r)]) < 6
        \<and> butlast (currentDeck r) \<noteq> [])"
  using loopHead_waits [of "r\<lparr>currentDealerHand := currentDealerHand r @ [last (currentDeck r)],
      currentDeck := butlast (currentDeck r),
      dealerTotal := total_hv (calculateHandValue
        (currentDealerHand r @ [last (currentDeck r)]))\<rparr>"
    "s\<lparr>dealerHand := currentDealerHand r @ [last (currentDeck r)],
      deck := butlast (currentDeck r)\<rparr>"]
  by (simp add: dealerPlay_resume_def pop_def)

lemma start_waits:
  "(snd (dealerPlay_start s) \<noteq> None)
     = (total_hv (calculateHandValue (dealerHand s)) < 17 \<and> length (dealerHand s) < 6
        \<and> deck s \<noteq> [])"
  using loopHead_waits [of "\<lparr>bankroll_c = bankroll s, betAmount_c = betAmount s,
      playerHand_c = playerHand s, currentDealerHand = dealerHand s, currentDeck = deck s,
      dealerTotal = total_hv (calculateHandValue (dealerHand s))\<rparr>" s]
  by (simp add: dealerPlay_start_def)

lemma start_stands:
  assumes "17 \<le> total_hv (calculateHandValue (dealerHand s)) \<or> 6 \<le> length (dealerHand s)"
  shows "snd (dealerPlay_start s) = None
       \<and> dealerHand (fst (dealerPlay_start s)) = dealerHand s
       \<and> deck (fst (dealerPlay_start s)) = deck s
       \<and> gamePhase (fst (dealerPlay_start s)) = Result"
  using assms by (auto simp: dealerPlay_start_def loopHead_stops dealerPlay_finish_fields)

text \<open>
  C5. In every page the machine reaches: a call of \<open>dealerPlay\<close> started in the
  dealer's turn goes on to draw iff the dealer's total is below 17 and the dealer holds
  fewer than 6 cards; every waiting call had that condition, has a card to draw, draws
  it into the dealer's hand, and goes on to draw another iff the new total is below 17
  and the new hand has fewer than 6 cards. So the dealer stands on every total of 17 or
  more (a soft 17 too) whatever the number of cards, and does not draw with 6 cards
  whatever the total: the call then ends without touching hand or deck. The condition
  is a function of the dealer's hand alone. (The test for an empty deck at line 315
  never succeeds on a page the machine reaches.)
\<close>

theorem dealer_draws_iff:
  "(gamePhase (ui (run es startPage)) = DealerTurn \<longrightarrow>
      (snd (dealerPlay_start (ui (run es startPage))) \<noteq> None)
        = (total_hv (calculateHandValue (dealerHand (ui (run es startPage)))) < 17
           \<and> length (dealerHand (ui (run es startPage))) < 6))
   \<and> (i < length (dealerRuns (run es startPage)) \<longrightarrow>
        (let r = dealerRuns (run es startPage) ! i;
             h' = currentDealerHand r @ [last (currentDeck r)]
         in currentDeck r \<noteq> []
          \<and> dealerTotal r = total_hv (calculateHandValue (currentDealerHand r))
          \<and> dealerTotal r < 17 \<and> length (currentDealerHand r) < 6
          \<and> dealerHand (fst (dealerPlay_resume r s)) = h'
          \<and> (snd (dealerPlay_resume r s) \<noteq> None)
              = (total_hv (calculateHandValue h') < 17 \<and> length h' < 6)))
   \<and> (17 \<le> total_hv (calculateHandValue (dealerHand s)) \<or> 6 \<le> length (dealerHand s) \<longrightarrow>
        snd (dealerPlay_start s) = None
        \<and> dealerHand (fst (dealerPlay_start s)) = dealerHand s
        \<and> deck (fst (dealerPlay_start s)) = deck s)"
proof (intro conjI impI)
  let ?p = "run es startPage"
  have inv: "tableInv ?p" by (rule reachable_tableInv)
  {
    assume ph: "gamePhase (ui ?p) = DealerTurn"
    show "(snd (dealerPlay_start (ui ?p)) \<noteq> None)
        = (total_hv (calculateHandValue (dealerHand (ui ?p))) < 17
           \<and> length (dealerHand (ui ?p)) < 6)"
    proof (cases "length (dealerHand (ui ?p)) < 6")
      case True
      then have "deck (ui ?p) \<noteq> []" using inv ph by (auto simp: tableInv_def tableState_def)
      then show ?thesis using start_waits [of "ui ?p"] by simp
    next
      case False
      then show ?thesis using start_waits [of "ui ?p"] by simp
    qed
  }
  {
    assume i: "i < length (dealerRuns ?p)"
    let ?r = "dealerRuns ?p ! i"
    have wr: "waitingRun ?r" using inv i by (simp add: tableInv_def list_all_nth)
    have big: "33 \<le> length (currentDeck ?r)" by (rule waitingRun_deck [OF wr])
    then have ne: "currentDeck ?r \<noteq> []" "butlast (currentDeck ?r) \<noteq> []"
      using long_list [of "currentDeck ?r"] by simp_all
    show "let r = dealerRuns ?p ! i;
             h' = currentDealerHand r @ [last (currentDeck r)]
         in currentDeck r \<noteq> []
          \<and> dealerTotal r = total_hv (calculateHandValue (currentDealerHand r))
          \<and> dealerTotal r < 17 \<and> length (currentDealerHand r) < 6
          \<and> dealerHand (fst (dealerPlay_resume r s)) = h'
          \<and> (snd (dealerPlay_resume r s) \<noteq> None)
              = (total_hv (calculateHandValue h') < 17 \<and> length h' < 6)"
      unfolding Let_def using wr ne resume_waits [of ?r s]
      by (simp add: resume_dealerHand waitingRun_def)
  }
  {
    assume "17 \<le> total_hv (calculateHandValue (dealerHand s)) \<or> 6 \<le> length (dealerHand s)"
    from start_stands [OF this]
    show "snd (dealerPlay_start s) = None" 
      and "dealerHand (fst (dealerPlay_start s)) = dealerHand s"
      and "deck (fst (dealerPlay_start s)) = deck s"
      by simp_all
  }
qed

theorem dealer_draws_iff_witness:
  "gamePhase (ui (run [DealClick charlieShuffle, StandClick] startPage)) = DealerTurn
   \<and> total_hv (calculateHandValue
         (dealerHand (ui (run [DealClick charlieShuffle, StandClick] startPage)))) < 17
   \<and> length (dealerHand (ui (run [DealClick charlieShuffle, StandClick] startPage))) < 6
   \<and> snd (dealerPlay_start (ui (run [DealClick charlieShuffle, StandClick] startPage))) \<noteq> None
   \<and> 0 < length (dealerRuns
         (run [DealClick charlieShuffle, StandClick, RunDealerTurnEffect] startPage))
   \<and> dealerHand (fst (dealerPlay_resume
         (dealerRuns (run [DealClick charlieShuffle, StandClick, RunDealerTurnEffect]
            startPage) ! 0) startState))
       = [makeCard Hearts R2, makeCard Diamonds R2, makeCard Clubs R2]
   \<and> 17 \<le> total_hv (calculateHandValue
         (dealerHand (startState\<lparr>dealerHand := [makeCard Spades R10, makeCard Hearts R7]\<rparr>)))
   \<and> snd (dealerPlay_start
         (startState\<lparr>dealerHand := [makeCard Spades R10, makeCard Hearts R7]\<rparr>)) = None"
proof -
  let ?es = "[DealClick charlieShuffle, StandClick]"
  let ?es' = "[DealClick charlieShuffle, StandClick, RunDealerTurnEffect]"
  let ?s = "startState\<lparr>dealerHand := [makeCard Spades R10, makeCard Hearts R7]\<rparr>"
  have ph: "gamePhase (ui (run ?es startPage)) = DealerTurn" by code_simp
  have t: "total_hv (calculateHandValue (dealerHand (ui (run ?es startPage)))) < 17"
    by code_simp
  have l: "length (dealerHand (ui (run ?es startPage))) < 6" by code_simp
  have i: "0 < length (dealerRuns (run ?es' startPage))" by code_simp
  have r: "currentDealerHand (dealerRuns (run ?es' startPage) ! 0)
             @ [last (currentDeck (dealerRuns (run ?es' startPage) ! 0))]
           = [makeCard Hearts R2, makeCard Diamonds R2, makeCard Clubs R2]"
    by code_simp
  have h: "17 \<le> total_hv (calculateHandValue (dealerHand ?s))" by code_simp
  have a: "snd (dealerPlay_start (ui (run ?es startPage))) \<noteq> None"
    using ph t l dealer_draws_iff [of ?es 0 ?s] by simp
  have b: "dealerHand (fst (dealerPlay_resume (dealerRuns (run ?es' startPage) ! 0) startState))
       = [makeCard Hearts R2, makeCard Diamonds R2, makeCard Clubs R2]"
    using i r dealer_draws_iff [of ?es' 0 startState] by (simp add: Let_def)
  have c: "snd (dealerPlay_start ?s) = None"
    using h dealer_draws_iff [of ?es 0 ?s] by simp
  show ?thesis using ph t l i h a b c by blast
qed

section \<open>The bankroll\<close>

lemma betOptions_pos: "a \<in> set betOptions \<Longrightarrow> 0 < a"
  by (auto simp: betOptions_def)

lemma blackjacks_bankroll:
  "bankroll (dealHand_blackjacks p d bet s) \<in> {bankroll s, bankroll s + bet, bankroll s + bet * 2}
   \<and> betAmount (dealHand_blackjacks p d bet s) = betAmount s"
  by (simp add: dealHand_blackjacks_def Let_def)

lemma dealHand_betAmount: "betAmount (dealHand rnd s) = betAmount s"
  by (simp add: dealHand_def blackjacks_bankroll split: prod.splits)

lemma dealHand_bankroll:
  "bankroll (dealHand rnd s) = bankroll s
   \<or> (betAmount s \<le> bankroll s
      \<and> bankroll (dealHand rnd s)
          \<in> {bankroll s - betAmount s, bankroll s + betAmount s})"
proof (cases "(gamePhase s = Betting \<or> gamePhase s = Result) \<and> \<not> bankroll s < betAmount s")
  case False
  then show ?thesis by (auto simp: dealHand_def)
next
  case True
  obtain c1 d1 where p1: "pop (shuffleDeck rnd createDeck) = (c1, d1)" by fastforce
  obtain c2 d2 where p2: "pop d1 = (c2, d2)" by fastforce
  obtain c3 d3 where p3: "pop d2 = (c3, d3)" by fastforce
  obtain c4 d4 where p4: "pop d3 = (c4, d4)" by fastforce
  show ?thesis
    using True blackjacks_bankroll [of "[c1, c2]" "[c3, c4]" "betAmount s"
      "s\<lparr>bankroll := bankroll s - betAmount s,
                throughput := throughput s + betAmount s,
                deck := d4, playerHand := [c1, c2], dealerHand := [c3, c4],
                gamePhase := PlayerTurn, message := ''Your turn: Hit or Stand?'',
                lastPlayerTotal := 0, lastDealerTotal := 0, lastHandResult := NoResult\<rparr>"]
    by (auto simp: dealHand_def p1 p2 p3 p4)
qed

lemma hitPlayer_bankroll:
  "bankroll (hitPlayer s) \<in> {bankroll s, bankroll s + betAmount s * 2}
   \<and> betAmount (hitPlayer s) = betAmount s"
  by (simp add: hitPlayer_def Let_def split: prod.splits)

lemma standPlayer_bankroll:
  "bankroll (standPlayer s) = bankroll s \<and> betAmount (standPlayer s) = betAmount s"
  by (simp add: standPlayer_def)

lemma autoPlayPlayerTurnAction_bankroll:
  "autoPlayPlayerTurnAction s = Inr s' \<Longrightarrow>
   bankroll s' \<in> {bankroll s, bankroll s + betAmount s * 2} \<and> betAmount s' = betAmount s"
  using hitPlayer_bankroll [of "s\<lparr>message := ''Auto-play: Hitting...''\<rparr>"]
    standPlayer_bankroll [of "s\<lparr>message := ''Auto-play: Standing...''\<rparr>"]
  by (auto simp: autoPlayPlayerTurnAction_def Let_def split: if_splits list.splits)

lemma autoPlayEffect_bankroll:
  assumes "autoPlayEffect rnd s = Inr s'"
  shows "betAmount s' = betAmount s
    \<and> (bankroll s' \<in> {bankroll s, bankroll s + betAmount s * 2}
       \<or> (betAmount s \<le> bankroll s
          \<and> bankroll s' \<in> {bankroll s - betAmount s, bankroll s + betAmount s}))"
proof (cases "autoPlayMode s \<and> gamePhase s = Betting")
  case True
  then have s': "s' = dealHand rnd (s\<lparr>message := ''Auto-play: Dealing new hand...''\<rparr>)"
    using assms by (simp add: autoPlayEffect_def)
  show ?thesis
    unfolding s'
    using dealHand_bankroll [of rnd "s\<lparr>message := ''Auto-play: Dealing new hand...''\<rparr>"]
    by (auto simp: dealHand_betAmount)
next
  case False
  then show ?thesis
    using assms
      autoPlayPlayerTurnAction_bankroll [of "s\<lparr>message := ''Auto-play: Player's turn...''\<rparr>" s']
    by (auto simp: autoPlayEffect_def split: if_splits)
qed

text \<open>What a call of \<open>dealerPlay\<close> does to the bankroll, wherever it stops.\<close>

lemma finish_bankroll_message:
  "bankroll (dealerPlay_finish r (s\<lparr>message := m\<rparr>)) = bankroll (dealerPlay_finish r s)"
  by (simp add: dealerPlay_finish_def determineWinner_def Let_def)

lemma loopHead_betAmount:
  "betAmount (fst (dealerPlay_loopHead r s)) = betAmount s"
  by (simp add: dealerPlay_loopHead_def dealerPlay_finish_fields)

lemma loopHead_bankroll:
  "bankroll (fst (dealerPlay_loopHead r s))
     \<in> {bankroll s, bankroll s + betAmount_c r * 2,
        bankroll_c r + betAmount_c r, bankroll_c r + betAmount_c r * 2}"
proof (cases "dealerTotal r < 17 \<and> length (currentDealerHand r) < 6 \<and> currentDeck r \<noteq> []")
  case True
  then show ?thesis by (simp add: dealerPlay_loopHead_def)
next
  case False
  then have "bankroll (fst (dealerPlay_loopHead r s)) = bankroll (dealerPlay_finish r s)"
    by (auto simp: dealerPlay_loopHead_def finish_bankroll_message)
  then show ?thesis using dealerPlay_finish_bankroll [of r s] by simp
qed

lemma loopHead_run:
  "snd (dealerPlay_loopHead r s) = Some r' \<Longrightarrow> r' = r"
  by (auto simp: dealerPlay_loopHead_def split: if_splits)

lemma start_run:
  "snd (dealerPlay_start s) = Some r \<Longrightarrow> bankroll_c r = bankroll s \<and> betAmount_c r = betAmount s"
  using loopHead_run [of "\<lparr>bankroll_c = bankroll s, betAmount_c = betAmount s,
      playerHand_c = playerHand s, currentDealerHand = dealerHand s, currentDeck = deck s,
      dealerTotal = total_hv (calculateHandValue (dealerHand s))\<rparr>" s r]
  by (simp add: dealerPlay_start_def)

lemma start_bankroll:
  "bankroll (fst (dealerPlay_start s))
     \<in> {bankroll s, bankroll s + betAmount s, bankroll s + betAmount s * 2}
   \<and> betAmount (fst (dealerPlay_start s)) = betAmount s"
  using loopHead_bankroll [of "\<lparr>bankroll_c = bankroll s, betAmount_c = betAmount s,
      playerHand_c = playerHand s, currentDealerHand = dealerHand s, currentDeck = deck s,
      dealerTotal = total_hv (calculateHandValue (dealerHand s))\<rparr>" s]
  by (auto simp: dealerPlay_start_def loopHead_betAmount)

lemma resume_run:
  "snd (dealerPlay_resume r s) = Some r' \<Longrightarrow>
   bankroll_c r' = bankroll_c r \<and> betAmount_c r' = betAmount_c r"
  using loopHead_run [of "r\<lparr>currentDealerHand := currentDealerHand r @ [last (currentDeck r)],
      currentDeck := butlast (currentDeck r),
      dealerTotal := total_hv (calculateHandValue
        (currentDealerHand r @ [last (currentDeck r)]))\<rparr>"
    "s\<lparr>dealerHand := currentDealerHand r @ [last (currentDeck r)],
      deck := butlast (currentDeck r)\<rparr>" r']
  by (auto simp: dealerPlay_resume_def pop_def)

lemma resume_bankroll:
  "bankroll (fst (dealerPlay_resume r s))
     \<in> {bankroll s, bankroll s + betAmount_c r * 2,
        bankroll_c r + betAmount_c r, bankroll_c r + betAmount_c r * 2}
   \<and> betAmount (fst (dealerPlay_resume r s)) = betAmount s"
  using loopHead_bankroll [of "r\<lparr>currentDealerHand := currentDealerHand r @ [last (currentDeck r)],
      currentDeck := butlast (currentDeck r),
      dealerTotal := total_hv (calculateHandValue
        (currentDealerHand r @ [last (currentDeck r)]))\<rparr>"
    "s\<lparr>dealerHand := currentDealerHand r @ [last (currentDeck r)],
      deck := butlast (currentDeck r)\<rparr>"]
  by (auto simp: dealerPlay_resume_def pop_def loopHead_betAmount)

text \<open>The state after a step, and the waiting calls after it.\<close>

lemma step_resume_ui:
  "i < length (dealerRuns p) \<Longrightarrow>
   ui (step (ResumeDealerPlay i) p) = fst (dealerPlay_resume (dealerRuns p ! i) (ui p))"
  by (simp split: prod.splits option.splits)

lemma step_effect_ui:
  "ui (step RunDealerTurnEffect p) =
     (if gamePhase (ui p) = DealerTurn then fst (dealerPlay_start (ui p)) else ui p)"
  by (simp add: dealerTurnEffect_def split: prod.splits option.splits)

lemma step_betAmount:
  "betAmount (ui p) \<in> set betOptions \<Longrightarrow> betAmount (ui (step e p)) \<in> set betOptions"
proof (cases e)
  case (RunAutoPlayEffect rnd)
  then show "betAmount (ui p) \<in> set betOptions \<Longrightarrow> betAmount (ui (step e p)) \<in> set betOptions"
    using autoPlayEffect_bankroll [of rnd "ui p"] by (auto split: sum.splits)
next
  case RunDealerTurnEffect
  then show "betAmount (ui p) \<in> set betOptions \<Longrightarrow> betAmount (ui (step e p)) \<in> set betOptions"
    by (simp only: step_effect_ui) (simp add: start_bankroll)
next
  case (ResumeDealerPlay i)
  then show "betAmount (ui p) \<in> set betOptions \<Longrightarrow> betAmount (ui (step e p)) \<in> set betOptions"
    by (cases "i < length (dealerRuns p)") (simp_all only: step_resume_ui resume_bankroll, simp)
qed (auto simp: dealHand_betAmount hitPlayer_bankroll standPlayer_bankroll
      toggleAutoPlay_def resetGame_def selectBet_def pointsEffect_def resultEffect_def)

lemma step_bankroll:
  assumes inv: "moneyInv p"
  shows "bankroll (ui p) \<le> bankroll (ui (step e p))
     \<or> ((\<exists>rnd. e = DealClick rnd \<or> e = RunAutoPlayEffect rnd)
          \<and> betAmount (ui p) \<le> bankroll (ui p)
          \<and> bankroll (ui (step e p)) = bankroll (ui p) - betAmount (ui p))
     \<or> (e = ResetClick \<and> bankroll (ui (step e p)) = 1000)
     \<or> ((\<exists>i. e = ResumeDealerPlay i \<and> i < length (dealerRuns p)
             \<and> bankroll_c (dealerRuns p ! i) \<noteq> bankroll (ui p))
          \<and> 0 \<le> bankroll (ui (step e p)))"
proof -
  have bet: "0 \<le> betAmount (ui p)"
    using inv betOptions_pos [of "betAmount (ui p)"] by (simp add: moneyInv_def moneyState_def)
  show ?thesis
  proof (cases e)
    case (DealClick rnd)
    then show ?thesis using bet dealHand_bankroll [of rnd "ui p"] by auto
  next
    case HitClick
    then show ?thesis using bet hitPlayer_bankroll [of "ui p"] by auto
  next
    case StandClick
    then show ?thesis by (simp add: standPlayer_bankroll)
  next
    case AutoPlayClick
    then show ?thesis by (simp add: toggleAutoPlay_def)
  next
    case ResetClick
    then show ?thesis by (simp add: resetGame_def)
  next
    case (BetSelect a)
    then show ?thesis by (simp add: selectBet_def)
  next
    case RunDealerTurnEffect
    have "bankroll (ui p) \<le> bankroll (ui (step RunDealerTurnEffect p))"
      unfolding step_effect_ui using bet start_bankroll [of "ui p"] by auto
    then show ?thesis using RunDealerTurnEffect by simp
  next
    case (ResumeDealerPlay i)
    show ?thesis
    proof (cases "i < length (dealerRuns p)")
      case False
      then show ?thesis using ResumeDealerPlay by simp
    next
      case True
      let ?r = "dealerRuns p ! i"
      have mr: "moneyRun ?r" using inv True by (simp add: moneyInv_def list_all_nth)
      then have rb: "0 \<le> bankroll_c ?r" "0 \<le> betAmount_c ?r"
        using betOptions_pos [of "betAmount_c ?r"] by (simp_all add: moneyRun_def)
      have sb: "0 \<le> bankroll (ui p)" using inv by (simp add: moneyInv_def moneyState_def)
      have u: "ui (step e p) = fst (dealerPlay_resume ?r (ui p))"
        using ResumeDealerPlay True by (simp only: step_resume_ui)
      have m: "bankroll (ui (step e p))
         \<in> {bankroll (ui p), bankroll (ui p) + betAmount_c ?r * 2,
            bankroll_c ?r + betAmount_c ?r, bankroll_c ?r + betAmount_c ?r * 2}"
        unfolding u using resume_bankroll [of ?r "ui p"] by simp
      show ?thesis
      proof (cases "bankroll_c ?r = bankroll (ui p)")
        case same: True
        then have "bankroll (ui p) \<le> bankroll (ui (step e p))" using m rb by auto
        then show ?thesis by simp
      next
        case False
        have "0 \<le> bankroll (ui (step e p))" using m rb sb by auto
        then show ?thesis using False True ResumeDealerPlay by blast
      qed
    qed
  next
    case RunPointsEffect
    then show ?thesis by (simp add: pointsEffect_def)
  next
    case (RunAutoPlayEffect rnd)
    then show ?thesis using bet autoPlayEffect_bankroll [of rnd "ui p"]
      by (auto split: sum.splits)
  next
    case RunResultEffect
    then show ?thesis by (simp add: resultEffect_def)
  qed
qed

lemma step_runs_money:
  assumes inv: "moneyInv p"
  shows "list_all moneyRun (dealerRuns (step e p))"
proof -
  have runs: "list_all moneyRun (dealerRuns p)" using inv by (simp add: moneyInv_def)
  show ?thesis
  proof (cases e)
    case RunDealerTurnEffect
    obtain s' ro where r: "dealerTurnEffect (ui p) = (s', ro)" by fastforce
    show ?thesis
    proof (cases ro)
      case None
      then show ?thesis using RunDealerTurnEffect r runs by simp
    next
      case (Some r')
      then have ph: "gamePhase (ui p) = DealerTurn"
        using r by (auto simp: dealerTurnEffect_def split: if_splits)
      then have "snd (dealerPlay_start (ui p)) = Some r'"
        using r Some by (simp add: dealerTurnEffect_def)
      from start_run [OF this] inv have "moneyRun r'"
        by (simp add: moneyRun_def moneyInv_def moneyState_def)
      then show ?thesis using RunDealerTurnEffect r Some runs by simp
    qed
  next
    case (ResumeDealerPlay i)
    show ?thesis
    proof (cases "i < length (dealerRuns p)")
      case False
      then show ?thesis using ResumeDealerPlay runs by simp
    next
      case True
      obtain s' ro where r: "dealerPlay_resume (dealerRuns p ! i) (ui p) = (s', ro)"
        by fastforce
      have mr: "moneyRun (dealerRuns p ! i)" using runs True by (simp add: list_all_nth)
      show ?thesis
      proof (cases ro)
        case None
        then show ?thesis using ResumeDealerPlay True r runs
          list_all_remove [OF runs, of i "Suc i"] by simp
      next
        case (Some r')
        then have "snd (dealerPlay_resume (dealerRuns p ! i) (ui p)) = Some r'"
          using r by simp
        from resume_run [OF this] mr have "moneyRun r'" by (simp add: moneyRun_def)
        then show ?thesis using ResumeDealerPlay True r Some runs
          by (simp add: list_all_update)
      qed
    qed
  qed (use runs in \<open>simp_all split: sum.splits\<close>)
qed

lemma step_moneyInv:
  assumes inv: "moneyInv p"
  shows "moneyInv (step e p)"
proof -
  have b: "0 \<le> bankroll (ui p)" "betAmount (ui p) \<in> set betOptions"
    using inv by (simp_all add: moneyInv_def moneyState_def)
  have "0 \<le> bankroll (ui (step e p))" using step_bankroll [OF inv, of e] b(1) by auto
  then show ?thesis
    using step_betAmount [OF b(2), of e] step_runs_money [OF inv, of e]
    by (simp add: moneyInv_def moneyState_def)
qed

lemma run_moneyInv: "moneyInv p \<Longrightarrow> moneyInv (run es p)"
  by (induction es arbitrary: p) (simp_all add: step_moneyInv)

lemma startPage_moneyInv: "moneyInv startPage"
  by (simp add: startPage_def startState_def resetGame_def initialState_def moneyInv_def
      moneyState_def betOptions_def)

text \<open>
  C7, as the code has it. In every page the machine reaches, the bankroll is not
  negative and the bet is one of the positive options. A step that lowers the bankroll
  is a deal (by the button or by auto-play) made with the bankroll at least the bet,
  which takes the bet off, or a reset, which sets the bankroll to 1000, or the going on
  of a waiting call of \<open>dealerPlay\<close> that was started from another bankroll than the
  present one. Every other step leaves the bankroll as it is or raises it, and so does
  a call of \<open>dealerPlay\<close> when the bankroll is still the one it was started from.
\<close>

theorem bankroll_never_negative:
  "0 \<le> bankroll (ui (run es startPage))
   \<and> betAmount (ui (run es startPage)) \<in> set betOptions
   \<and> 0 < betAmount (ui (run es startPage))
   \<and> (bankroll (ui (step e (run es startPage))) < bankroll (ui (run es startPage)) \<longrightarrow>
        ((\<exists>rnd. e = DealClick rnd \<or> e = RunAutoPlayEffect rnd)
          \<and> betAmount (ui (run es startPage)) \<le> bankroll (ui (run es startPage))
          \<and> bankroll (ui (step e (run es startPage)))
              = bankroll (ui (run es startPage)) - betAmount (ui (run es startPage)))
      \<or> (e = ResetClick \<and> bankroll (ui (step e (run es startPage))) = 1000)
      \<or> (\<exists>i. e = ResumeDealerPlay i \<and> i < length (dealerRuns (run es startPage))
             \<and> bankroll_c (dealerRuns (run es startPage) ! i)
                 \<noteq> bankroll (ui (run es startPage))))"
proof -
  have inv: "moneyInv (run es startPage)"
    using run_moneyInv startPage_moneyInv by blast
  then have b: "0 \<le> bankroll (ui (run es startPage))"
    "betAmount (ui (run es startPage)) \<in> set betOptions"
    by (simp_all add: moneyInv_def moneyState_def)
  then have pos: "0 < betAmount (ui (run es startPage))" by (simp add: betOptions_pos)
  from step_bankroll [OF inv, of e] b pos show ?thesis by auto
qed

theorem bankroll_never_negative_witness:
  "bankroll (ui (step (DealClick (id(51 := 0))) (run [] startPage)))
     < bankroll (ui (run [] startPage))
   \<and> betAmount (ui (run [] startPage)) \<le> bankroll (ui (run [] startPage))
   \<and> bankroll (ui (step (DealClick (id(51 := 0))) (run [] startPage)))
       = bankroll (ui (run [] startPage)) - betAmount (ui (run [] startPage))
   \<and> 0 \<le> bankroll (ui (run [DealClick (id(51 := 0))] startPage))"
proof -
  have a: "bankroll (ui (step (DealClick (id(51 := 0))) (run [] startPage))) = 990"
    by code_simp
  have b: "bankroll (ui (run [] startPage)) = 1000"
    by code_simp
  have lt: "bankroll (ui (step (DealClick (id(51 := 0))) (run [] startPage)))
            < bankroll (ui (run [] startPage))"
    unfolding a b by simp
  show ?thesis
    using lt bankroll_never_negative [of "[]" "DealClick (id(51 := 0))"]
      bankroll_never_negative [of "[DealClick (id(51 := 0))]" ResetClick]
    by auto
qed

text \<open>
  C7 as stated, with a deal as the only step that lowers the bankroll, fails on reset:
  after a deal won by a natural blackjack the bankroll is 1010, and a reset lowers it to
  1000.
\<close>

theorem reset_decreases_bankroll:
  "bankroll (ui (run [DealClick id] startPage)) = 1010
   \<and> bankroll (ui (step ResetClick (run [DealClick id] startPage))) = 1000"
proof -
  have 1: "bankroll (ui (run [DealClick id] startPage)) = 1010"
    by code_simp
  have 2: "bankroll (ui (step ResetClick (run [DealClick id] startPage))) = 1000"
    by code_simp
  show ?thesis using 1 2 by blast
qed

text \<open>
  A waiting call of \<open>dealerPlay\<close> is not cancelled by a reset. Here the first round is
  lost (bankroll 990); in the second (bankroll 980 after the deal) the dealer holds 16
  and a call waits; the page is reset to 1000; the call goes on, draws an ace, and
  settles a push from the bankroll it was started with: 980 + 10.
\<close>

lemma stale_settlement_lowers_bankroll:
  "bankroll (ui (run [DealClick (id(51 := 46)), StandClick, RunDealerTurnEffect,
       RunResultEffect, DealClick (id(51 := 47, 50 := 44, 48 := 43)), StandClick,
       RunDealerTurnEffect, ResetClick] startPage)) = 1000
   \<and> bankroll (ui (run [DealClick (id(51 := 46)), StandClick, RunDealerTurnEffect,
       RunResultEffect, DealClick (id(51 := 47, 50 := 44, 48 := 43)), StandClick,
       RunDealerTurnEffect, ResetClick, ResumeDealerPlay 0] startPage)) = 990"
proof -
  have 1: "bankroll (ui (run [DealClick (id(51 := 46)), StandClick, RunDealerTurnEffect,
       RunResultEffect, DealClick (id(51 := 47, 50 := 44, 48 := 43)), StandClick,
       RunDealerTurnEffect, ResetClick] startPage)) = 1000"
    by code_simp
  have 2: "bankroll (ui (run [DealClick (id(51 := 46)), StandClick, RunDealerTurnEffect,
       RunResultEffect, DealClick (id(51 := 47, 50 := 44, 48 := 43)), StandClick,
       RunDealerTurnEffect, ResetClick, ResumeDealerPlay 0] startPage)) = 990"
    by code_simp
  show ?thesis using 1 2 by blast
qed

section \<open>The dealer's six-card loss\<close>

text \<open>
  C8, on the round \<open>charlieRound\<close>. Each call of \<open>dealerPlay\<close> that ends with the dealer
  at six cards below 17 takes the direct resolution and credits twice the bet on top of
  the bankroll of the moment. The first one brings 990 to 1010, a win; the other seven
  credit again, and the round ends at 1150 for a single bet of 10 (1130 when the effect
  has run once less). The rule of \<open>determineWinner\<close> for the same hands writes the
  bankroll of the render plus twice the bet, 1010, however often it runs.
\<close>

theorem dealer_charlie_paid_per_run:
  "playerHand (ui (run charlieRound startPage)) = [makeCard Spades R10, makeCard Spades R9]
   \<and> bankroll (ui (run charlieRound startPage)) = 990
   \<and> length (dealerRuns (run charlieRound startPage)) = 8
   \<and> dealerHand (ui (run (charlieRound @ [ResumeDealerPlay 0]) startPage))
       = [makeCard Hearts R2, makeCard Diamonds R2, makeCard Clubs R2, makeCard Spades R2,
          makeCard Hearts R3, makeCard Diamonds R3]
   \<and> total_hv (calculateHandValue
         (dealerHand (ui (run (charlieRound @ [ResumeDealerPlay 0]) startPage)))) = 14
   \<and> lastHandResult (ui (run (charlieRound @ [ResumeDealerPlay 0]) startPage)) = Win
   \<and> bankroll (ui (run (charlieRound @ [ResumeDealerPlay 0]) startPage)) = 1010
   \<and> bankroll (ui (run (charlieRound @ replicate 8 (ResumeDealerPlay 0)) startPage)) = 1150
   \<and> throughput (ui (run (charlieRound @ replicate 8 (ResumeDealerPlay 0)) startPage)) = 10
   \<and> bankroll (ui (run (butlast charlieRound @ replicate 7 (ResumeDealerPlay 0)) startPage))
       = 1130
   \<and> bankroll (determineWinner 990 [makeCard Spades R10, makeCard Spades R9]
         [makeCard Hearts R2, makeCard Diamonds R2, makeCard Clubs R2, makeCard Spades R2,
          makeCard Hearts R3, makeCard Diamonds R3] 10
         (ui (run (charlieRound @ replicate 8 (ResumeDealerPlay 0)) startPage))) = 1010"
proof -
  have 1: "playerHand (ui (run charlieRound startPage))
           = [makeCard Spades R10, makeCard Spades R9]"
    by code_simp
  have 2: "bankroll (ui (run charlieRound startPage)) = 990"
    by code_simp
  have 3: "length (dealerRuns (run charlieRound startPage)) = 8"
    by code_simp
  have 4: "dealerHand (ui (run (charlieRound @ [ResumeDealerPlay 0]) startPage))
       = [makeCard Hearts R2, makeCard Diamonds R2, makeCard Clubs R2, makeCard Spades R2,
          makeCard Hearts R3, makeCard Diamonds R3]"
    by code_simp
  have 5: "total_hv (calculateHandValue [makeCard Hearts R2, makeCard Diamonds R2,
          makeCard Clubs R2, makeCard Spades R2, makeCard Hearts R3, makeCard Diamonds R3])
           = 14"
    by code_simp
  have 6: "lastHandResult (ui (run (charlieRound @ [ResumeDealerPlay 0]) startPage)) = Win"
    by code_simp
  have 7: "bankroll (ui (run (charlieRound @ [ResumeDealerPlay 0]) startPage)) = 1010"
    by code_simp
  have 8: "bankroll (ui (run (charlieRound @ replicate 8 (ResumeDealerPlay 0)) startPage))
           = 1150"
    by code_simp
  have 9: "throughput (ui (run (charlieRound @ replicate 8 (ResumeDealerPlay 0)) startPage))
           = 10"
    by code_simp
  have 10: "bankroll (ui (run (butlast charlieRound @ replicate 7 (ResumeDealerPlay 0))
              startPage)) = 1130"
    by code_simp
  have 11: "bankroll (determineWinner 990 [makeCard Spades R10, makeCard Spades R9]
         [makeCard Hearts R2, makeCard Diamonds R2, makeCard Clubs R2, makeCard Spades R2,
          makeCard Hearts R3, makeCard Diamonds R3] 10
         (ui (run (charlieRound @ replicate 8 (ResumeDealerPlay 0)) startPage))) = 1010"
    by code_simp
  show ?thesis unfolding 4 using 1 2 3 5 6 7 8 9 10 11 by blast
qed

end
